theory Spec2Isabelle
  imports Complex_Main "HOL-Library.Char_ord" "HOL-Library.List_Lexorder"
    "HOL-Library.Option_ord" "HOL-Library.Product_Lexorder" "HOL-Library.Multiset"
begin

section \<open>The support-ticket dashboard (Legacy/dashboard.py)\<close>

text \<open>
  The program is one Python file on top of pandas and Streamlit. The embedding follows
  the file function by function: \<open>load_data\<close>, the two sidebar filters of \<open>main\<close>,
  \<open>create_summary_metrics\<close>, the percentage labels, the Category Breakdown aggregation,
  the Recent Issues selection and the CSV export. Each pandas call the file makes is a
  small HOL function with the documented behaviour of that call; a \<open>KeyError\<close> for a
  missing column, which pandas raises, is a value \<open>Inl (KeyError c)\<close>.

  Modelling decisions:
  \<^item> A cell is missing (\<open>NaN\<close>, which also stands for \<open>NaT\<close>), a text or a timestamp.
    A number is kept as the text of its field, and the table records which columns
    \<open>read_csv\<close> read as numbers.
  \<^item> A \<open>DataFrame\<close> is its list of column names and its rows, each row a list of cells
    in column order. The row labels (a \<open>RangeIndex\<close>) are read by no operation of the file
    and are left out.
  \<^item> A CSV file is the list of its lines, each line the list of its fields (quoting is
    below this level); a blank line has no field.
  \<^item> The parser of pandas for the format \<open>%d/%m/%Y %H:%M\<close> is a parameter
    \<open>strptime\<close>: it returns \<open>None\<close> for a text that does not parse.
  \<^item> \<open>st.cache_data\<close> memoises a function of the path; the model is that function.
  \<^item> An exception that \<open>main\<close> does not catch ends the run: \<open>main\<close> returns
    \<open>Inl\<close> of it.
  \<^item> Building a figure is library code that can raise: its outcome is a parameter
    \<open>px\<close>.
\<close>

subsection \<open>Data model\<close>

text \<open>A timestamp: year, month, day, hour, minute, ordered lexicographically.\<close>

type_synonym timestamp = "nat \<times> nat \<times> nat \<times> nat \<times> nat"

datatype cell = NaN | Text string | Stamp timestamp

datatype py_error =
    FileNotFoundError
  | EmptyDataError
  | ParserError
  | KeyError string
  | TypeError
  | ValueError
  | ZeroDivisionError

record dataframe =
  columns :: "string list"
  rows :: "cell list list"
  numeric_columns :: "string list"

type_synonym csv_file = "string list list"

type_synonym parser = "string \<Rightarrow> timestamp option"

subsection \<open>pandas primitives used by the file\<close>

text \<open>The position of the first occurrence of a value in a list.\<close>

fun index_of :: "'a \<Rightarrow> 'a list \<Rightarrow> nat option" where
  "index_of a [] = None"
| "index_of a (x # xs) =
     (if x = a then Some 0 else (case index_of a xs of None \<Rightarrow> None | Some i \<Rightarrow> Some (Suc i)))"

text \<open>The default \<open>na_values\<close> of \<open>read_csv\<close>: fields read as missing.\<close>

definition na_values :: "string list" where
  "na_values = ['''', ''#N/A'', ''#N/A N/A'', ''#NA'', ''-1.#IND'', ''-1.#QNAN'', ''-NaN'',
     ''-nan'', ''1.#IND'', ''1.#QNAN'', ''<NA>'', ''N/A'', ''NA'', ''NULL'', ''NaN'', ''None'',
     ''n/a'', ''nan'', ''null'']"

definition parse_field :: "string \<Rightarrow> cell" where
  "parse_field s = (if s \<in> set na_values then NaN else Text s)"

text \<open>
  The number that \<open>read_csv\<close> reads from a field: blanks around it, a sign, digits
  with an optional fraction, an optional exponent. The texts \<open>inf\<close> and the truth
  values are not modelled as such: a column of them is kept as a column of texts.
\<close>

definition is_digit :: "char \<Rightarrow> bool" where
  "is_digit c = (let n = (of_char c :: nat) in 48 \<le> n \<and> n \<le> 57)"

definition is_blank :: "char \<Rightarrow> bool" where
  "is_blank c = (c = CHR '' '' \<or> c = CHR 0x09)"

definition digits_value :: "string \<Rightarrow> nat" where
  "digits_value ds = fold (\<lambda>c n. 10 * n + (of_char c - 48)) ds 0"

definition strip :: "string \<Rightarrow> string" where
  "strip s = rev (dropWhile is_blank (rev (dropWhile is_blank s)))"

definition split_sign :: "string \<Rightarrow> bool \<times> string" where
  "split_sign s =
     (case s of
        [] \<Rightarrow> (False, [])
      | c # cs \<Rightarrow>
          if c = CHR ''-'' then (True, cs) else if c = CHR ''+'' then (False, cs) else (False, s))"

definition number_of :: "string \<Rightarrow> rat option" where
  "number_of s =
     (let (negative, u) = split_sign (strip s);
          whole = takeWhile is_digit u;
          after = dropWhile is_digit u;
          (fraction, rest) =
            (case after of
               [] \<Rightarrow> ([], [])
             | c # cs \<Rightarrow>
                 if c = CHR ''.'' then (takeWhile is_digit cs, dropWhile is_digit cs)
                 else ([], after));
          mantissa = (of_nat (digits_value (whole @ fraction)) / 10 ^ length fraction :: rat);
          signed = (if negative then - mantissa else mantissa)
      in if whole = [] \<and> fraction = [] then None
         else (case rest of
                 [] \<Rightarrow> Some signed
               | c # cs \<Rightarrow>
                   if c = CHR ''e'' \<or> c = CHR ''E'' then
                     (let (down, ds) = split_sign cs in
                      if ds \<noteq> [] \<and> list_all is_digit ds then
                        Some (if down then signed / 10 ^ digits_value ds
                              else signed * 10 ^ digits_value ds)
                      else None)
                   else None))"

definition number_value :: "string \<Rightarrow> rat" where
  "number_value s = (case number_of s of None \<Rightarrow> 0 | Some q \<Rightarrow> q)"

text \<open>A field that does not keep its column from being a column of numbers.\<close>

definition numeric_field :: "string \<Rightarrow> bool" where
  "numeric_field s = (s \<in> set na_values \<or> number_of s \<noteq> None)"

text \<open>
  A record of \<open>w\<close> fields, filled with empty fields at its end when it is shorter,
  without its first \<open>k\<close> fields.
\<close>

definition align_record :: "nat \<Rightarrow> nat \<Rightarrow> string list \<Rightarrow> string list" where
  "align_record w k r = drop k (r @ replicate (w - length r) [])"

text \<open>
  \<open>pd.read_csv(file_path)\<close>: \<open>None\<close> is a path with no readable file. Blank lines are
  skipped and the first remaining line is the header. The width of the table is the
  number of fields of the header or of the first record, whichever is larger: a shorter
  record is filled with missing values, a longer one is a tokenising error, and when
  the first record is wider than the header the surplus leading fields are the row
  labels and not part of the columns. A column whose fields are all numbers or missing
  is read as numbers: the model keeps each number as its text and lists the column in
  \<open>numeric_columns\<close>, so two texts of one number are two values of the model. The
  renaming of repeated and empty header names is not modelled; it changes no column
  name the program reads.
\<close>

definition read_csv :: "csv_file option \<Rightarrow> py_error + dataframe" where
  "read_csv file =
     (case file of
        None \<Rightarrow> Inl FileNotFoundError
      | Some lines \<Rightarrow>
          (case filter (\<lambda>l. l \<noteq> []) lines of
             [] \<Rightarrow> Inl EmptyDataError
           | header # records \<Rightarrow>
               (let n = length header;
                    w = (case records of [] \<Rightarrow> n | first # later \<Rightarrow> max n (length first));
                    fields = map (align_record w (w - n)) records
                in if list_ex (\<lambda>r. w < length r) records then Inl ParserError
                   else Inr \<lparr>columns = header,
                             rows = map (map parse_field) fields,
                             numeric_columns =
                               filter (\<lambda>c. case index_of c header of
                                             None \<Rightarrow> False
                                           | Some j \<Rightarrow> list_all (\<lambda>r. numeric_field (r ! j)) fields)
                                 (remdups header)\<rparr>)))"

definition cell_at :: "cell list \<Rightarrow> nat \<Rightarrow> cell" where
  "cell_at r i = (if i < length r then r ! i else NaN)"

text \<open>\<open>df[c]\<close>: the column as a series, or \<open>KeyError\<close>.\<close>

definition get_column :: "dataframe \<Rightarrow> string \<Rightarrow> py_error + cell list" where
  "get_column df c =
     (case index_of c (columns df) of
        None \<Rightarrow> Inl (KeyError c)
      | Some i \<Rightarrow> Inr (map (\<lambda>r. cell_at r i) (rows df)))"

text \<open>\<open>df[c] = series\<close>: overwrites the column, or appends a new one.\<close>

definition set_column :: "dataframe \<Rightarrow> string \<Rightarrow> cell list \<Rightarrow> dataframe" where
  "set_column df c vs =
     (case index_of c (columns df) of
        None \<Rightarrow> df\<lparr>columns := columns df @ [c], rows := map (\<lambda>(r, v). r @ [v]) (zip (rows df) vs)\<rparr>
      | Some i \<Rightarrow> df\<lparr>rows := map (\<lambda>(r, v). r[i := v]) (zip (rows df) vs)\<rparr>)"

text \<open>\<open>pd.to_datetime(series, format=..., errors='coerce')\<close>, one element.\<close>

fun to_datetime :: "parser \<Rightarrow> cell \<Rightarrow> cell" where
  "to_datetime strptime NaN = NaN"
| "to_datetime strptime (Text s) = (case strptime s of None \<Rightarrow> NaN | Some t \<Rightarrow> Stamp t)"
| "to_datetime strptime (Stamp t) = Stamp t"

fun fillna :: "cell \<Rightarrow> cell \<Rightarrow> cell" where
  "fillna v NaN = v"
| "fillna v c = c"

fun notna :: "cell \<Rightarrow> bool" where
  "notna NaN = False"
| "notna c = True"

text \<open>\<open>series == s\<close> for a string \<open>s\<close>: a missing value equals nothing.\<close>

definition eq_mask :: "cell list \<Rightarrow> string \<Rightarrow> bool list" where
  "eq_mask series s = map (\<lambda>c. c = Text s) series"

text \<open>\<open>df[mask]\<close>: the rows at which the mask holds, in order.\<close>

definition boolean_index :: "dataframe \<Rightarrow> bool list \<Rightarrow> dataframe" where
  "boolean_index df keep = df\<lparr>rows := map fst (filter snd (zip (rows df) keep))\<rparr>"

subsection \<open>load_data\<close>

datatype message = Error_loading_data py_error | Failed_to_load_data

definition date_columns :: "string list" where
  "date_columns = [''Created'', ''Updated'', ''Last Viewed'', ''Resolved'']"

text \<open>The loop over \<open>date_columns\<close> (lines 54 to 56).\<close>

fun convert_dates :: "parser \<Rightarrow> string list \<Rightarrow> dataframe \<Rightarrow> py_error + dataframe" where
  "convert_dates strptime [] df = Inr df"
| "convert_dates strptime (col # cols) df =
     (if col \<in> set (columns df) then
        (case get_column df col of
           Inl e \<Rightarrow> Inl e
         | Inr s \<Rightarrow> convert_dates strptime cols (set_column df col (map (to_datetime strptime) s)))
      else convert_dates strptime cols df)"

text \<open>The body of the \<open>try\<close> block (lines 50 to 62).\<close>

definition load_data_try :: "parser \<Rightarrow> csv_file option \<Rightarrow> py_error + dataframe" where
  "load_data_try strptime file =
     (case read_csv file of
        Inl e \<Rightarrow> Inl e
      | Inr df \<Rightarrow>
     (case convert_dates strptime date_columns df of
        Inl e \<Rightarrow> Inl e
      | Inr df1 \<Rightarrow>
     (case get_column df1 ''Category'' of
        Inl e \<Rightarrow> Inl e
      | Inr cat \<Rightarrow>
     (let df2 = set_column df1 ''Category'' (map (fillna (Text ''Uncategorized'')) cat) in
      case get_column df2 ''Review_Flag'' of
        Inl e \<Rightarrow> Inl e
      | Inr flag \<Rightarrow> Inr (set_column df2 ''Review_Flag'' (map (fillna (Text ''NO'')) flag))))))"

text \<open>
  \<open>load_data\<close>: the messages it shows with \<open>st.error\<close>, and the table or \<open>None\<close>.
  The \<open>except\<close> clause catches every exception of the body.
\<close>

definition load_data :: "parser \<Rightarrow> csv_file option \<Rightarrow> message list \<times> dataframe option" where
  "load_data strptime file =
     (case load_data_try strptime file of
        Inl e \<Rightarrow> ([Error_loading_data e], None)
      | Inr df \<Rightarrow> ([], Some df))"

subsection \<open>The sidebar and the filters of main\<close>

fun text_of :: "cell \<Rightarrow> string option" where
  "text_of (Text s) = Some s"
| "text_of c = None"

fun stamp_of :: "cell \<Rightarrow> timestamp option" where
  "stamp_of (Stamp t) = Some t"
| "stamp_of c = None"

text \<open>\<open>series.unique()\<close>: the distinct values in the order of their first appearance.\<close>

definition unique :: "'a list \<Rightarrow> 'a list" where
  "unique xs = rev (remdups (rev xs))"

text \<open>
  \<open>sorted(values)\<close> on the distinct values of a column. Python compares texts by code
  point and numbers by value, and comparing a text with a number or with a missing
  value (a float) raises \<open>TypeError\<close>. In a column of numbers the values that read as
  numbers are numbers and the others are texts put there by \<open>fillna\<close>.
\<close>

definition py_order :: "bool \<Rightarrow> string list \<Rightarrow> string list" where
  "py_order numeric ss =
     (if numeric then
        sort_key number_value (filter (\<lambda>s. number_of s \<noteq> None) ss) @
        sort (filter (\<lambda>s. number_of s = None) ss)
      else sort ss)"

definition sorted_py :: "bool \<Rightarrow> cell list \<Rightarrow> py_error + string list" where
  "sorted_py numeric xs =
     (case those (map text_of xs) of
        None \<Rightarrow> Inl TypeError
      | Some ss \<Rightarrow>
          if numeric \<and> list_ex (\<lambda>s. number_of s \<noteq> None) ss \<and>
             list_ex (\<lambda>s. number_of s = None) ss
          then Inl TypeError
          else Inr (py_order numeric ss))"

text \<open>Line 165: the options of the category selector.\<close>

definition category_options :: "dataframe \<Rightarrow> py_error + string list" where
  "category_options df =
     (case get_column df ''Category'' of
        Inl e \<Rightarrow> Inl e
      | Inr cat \<Rightarrow>
          (case sorted_py (''Category'' \<in> set (numeric_columns df)) (unique cat) of
             Inl e \<Rightarrow> Inl e
           | Inr ss \<Rightarrow> Inr (''All'' # ss)))"

definition review_options :: "string list" where
  "review_options = [''All'', ''Flagged for Review'', ''Auto-Assigned'']"

text \<open>Lines 186 and 187.\<close>

definition filter_category :: "string \<Rightarrow> dataframe \<Rightarrow> py_error + dataframe" where
  "filter_category selected_category df =
     (if selected_category \<noteq> ''All'' then
        (case get_column df ''Category'' of
           Inl e \<Rightarrow> Inl e
         | Inr cat \<Rightarrow> Inr (boolean_index df (eq_mask cat selected_category)))
      else Inr df)"

text \<open>Lines 189 to 192.\<close>

definition filter_review :: "string \<Rightarrow> dataframe \<Rightarrow> py_error + dataframe" where
  "filter_review selected_review df =
     (if selected_review = ''Flagged for Review'' then
        (case get_column df ''Review_Flag'' of
           Inl e \<Rightarrow> Inl e
         | Inr flag \<Rightarrow> Inr (boolean_index df (eq_mask flag ''YES'')))
      else if selected_review = ''Auto-Assigned'' then
        (case get_column df ''Review_Flag'' of
           Inl e \<Rightarrow> Inl e
         | Inr flag \<Rightarrow> Inr (boolean_index df (eq_mask flag ''NO'')))
      else Inr df)"

text \<open>Lines 184 to 192: the filtered view.\<close>

definition apply_filters :: "string \<Rightarrow> string \<Rightarrow> dataframe \<Rightarrow> py_error + dataframe" where
  "apply_filters selected_category selected_review df =
     (case filter_category selected_category df of
        Inl e \<Rightarrow> Inl e
      | Inr filtered_df \<Rightarrow> filter_review selected_review filtered_df)"

subsection \<open>Summary metrics and percentage labels\<close>

text \<open>\<open>series.nunique()\<close>: the number of distinct values that are not missing.\<close>

definition nunique :: "cell list \<Rightarrow> nat" where
  "nunique series = length (unique (filter notna series))"

definition create_summary_metrics :: "dataframe \<Rightarrow> py_error + nat \<times> nat \<times> nat \<times> nat" where
  "create_summary_metrics df =
     (let total_issues = length (rows df) in
      case get_column df ''Review_Flag'' of
        Inl e \<Rightarrow> Inl e
      | Inr flag \<Rightarrow>
     (let flagged_issues = length (rows (boolean_index df (eq_mask flag ''YES''))) in
      case get_column df ''Category'' of
        Inl e \<Rightarrow> Inl e
      | Inr cat \<Rightarrow>
     (let unique_categories = nunique cat in
      case get_column df ''Resolved'' of
        Inl e \<Rightarrow> Inl e
      | Inr res \<Rightarrow>
     (let resolved_issues = length (rows (boolean_index df (map notna res))) in
      Inr (total_issues, flagged_issues, unique_categories, resolved_issues)))))"

text \<open>
  The \<open>delta\<close> label of a metric. \<open>Pct1f q\<close> is the text \<open>f"{q:.1f}%"\<close>; the quotient is
  kept exact: the rounding of binary floating point and of the one-decimal format is
  not modelled.
\<close>

datatype delta = Filtered nat | Pct1f rat | Lit string

text \<open>Python's \<open>/\<close> on two counts.\<close>

definition truediv :: "nat \<Rightarrow> nat \<Rightarrow> py_error + rat" where
  "truediv a b = (if b = 0 then Inl ZeroDivisionError else Inr (of_nat a / of_nat b))"

text \<open>
  \<open>f"{(k/total_issues*100):.1f}%" if total_issues > 0 else "0%"\<close> (lines 211 and 224):
  the division is evaluated in the first branch only.
\<close>

definition pct_delta :: "nat \<Rightarrow> nat \<Rightarrow> py_error + delta" where
  "pct_delta k total_issues =
     (if total_issues > 0 then
        (case truediv k total_issues of
           Inl e \<Rightarrow> Inl e
         | Inr q \<Rightarrow> Inr (Pct1f (q * 100)))
      else Inr (Lit ''0%''))"

subsection \<open>Category Breakdown\<close>

text \<open>The values of a series at the rows of one group.\<close>

definition group_values :: "'a list \<Rightarrow> bool list \<Rightarrow> 'a list" where
  "group_values series keep = map fst (filter snd (zip series keep))"

text \<open>
  \<open>groupby('Category')\<close>: one group per distinct Category, the keys sorted, numbers
  before texts; rows with a missing Category belong to no group.
\<close>

definition group_keys :: "bool \<Rightarrow> cell list \<Rightarrow> string list" where
  "group_keys numeric cat = py_order numeric (remdups (List.map_filter text_of cat))"

text \<open>
  Lines 256 to 264. \<open>'count'\<close> counts the values of the group that are not missing; the
  two lambdas count the \<open>'YES'\<close> flags and the present Resolved values. A column of the
  dictionary that the table lacks is a \<open>KeyError\<close>. Each entry is
  (Category, Total, Flagged, Resolved).
\<close>

definition category_stats :: "dataframe \<Rightarrow> py_error + (string \<times> nat \<times> nat \<times> nat) list" where
  "category_stats df =
     (case get_column df ''Category'' of
        Inl e \<Rightarrow> Inl e
      | Inr cat \<Rightarrow>
     (case get_column df ''Summary'' of
        Inl e \<Rightarrow> Inl e
      | Inr summary \<Rightarrow>
     (case get_column df ''Review_Flag'' of
        Inl e \<Rightarrow> Inl e
      | Inr flag \<Rightarrow>
     (case get_column df ''Resolved'' of
        Inl e \<Rightarrow> Inl e
      | Inr res \<Rightarrow>
          Inr (map (\<lambda>k.
                 (k,
                  length (filter notna (group_values summary (eq_mask cat k))),
                  length (filter (\<lambda>c. c = Text ''YES'') (group_values flag (eq_mask cat k))),
                  length (filter notna (group_values res (eq_mask cat k)))))
               (group_keys (''Category'' \<in> set (numeric_columns df)) cat))))))"

text \<open>The sum of the Total column of the breakdown.\<close>

definition total_sum :: "(string \<times> nat \<times> nat \<times> nat) list \<Rightarrow> nat" where
  "total_sum stats = sum_list (map (\<lambda>(k, total, flagged, resolved). total) stats)"

subsection \<open>Recent Issues\<close>

text \<open>
  \<open>df.nlargest(n, c)\<close> is documented as \<open>df.sort_values(c, ascending=False).head(n)\<close>:
  the rows in descending order of the column, rows with a missing value last, equal
  values in the order of the table, and of those the first \<open>n\<close>. This is pandas from
  version 1.4 on; older versions left out the rows with a missing value.
\<close>

fun insert_desc :: "('a \<Rightarrow> 'k::linorder) \<Rightarrow> 'a \<Rightarrow> 'a list \<Rightarrow> 'a list" where
  "insert_desc key x [] = [x]"
| "insert_desc key x (y # ys) =
     (if key y \<le> key x then x # y # ys else y # insert_desc key x ys)"

definition sort_desc :: "('a \<Rightarrow> 'k::linorder) \<Rightarrow> 'a list \<Rightarrow> 'a list" where
  "sort_desc key xs = foldr (insert_desc key) xs []"

definition nlargest :: "nat \<Rightarrow> string \<Rightarrow> dataframe \<Rightarrow> py_error + dataframe" where
  "nlargest n c df =
     (case index_of c (columns df) of
        None \<Rightarrow> Inl (KeyError c)
      | Some i \<Rightarrow> Inr (df\<lparr>rows := take n (sort_desc (\<lambda>r. stamp_of (cell_at r i)) (rows df))\<rparr>))"

text \<open>\<open>df[[c1, ..., ck]]\<close>: the listed columns, or \<open>KeyError\<close> when one is missing.\<close>

definition column_cell :: "dataframe \<Rightarrow> cell list \<Rightarrow> string \<Rightarrow> cell" where
  "column_cell df r c = (case index_of c (columns df) of None \<Rightarrow> NaN | Some i \<Rightarrow> cell_at r i)"

definition select_columns :: "dataframe \<Rightarrow> string list \<Rightarrow> py_error + dataframe" where
  "select_columns df cs =
     (case filter (\<lambda>c. c \<notin> set (columns df)) cs of
        c # _ \<Rightarrow> Inl (KeyError c)
      | [] \<Rightarrow> Inr \<lparr>columns = cs,
                  rows = map (\<lambda>r. map (column_cell df r) cs) (rows df),
                  numeric_columns = filter (\<lambda>c. c \<in> set cs) (numeric_columns df)\<rparr>)"

text \<open>Lines 269 and 270: the table shown, or nothing without a Created column.\<close>

definition recent_issues :: "dataframe \<Rightarrow> py_error + dataframe option" where
  "recent_issues filtered_df =
     (if ''Created'' \<in> set (columns filtered_df) then
        (case nlargest 10 ''Created'' filtered_df of
           Inl e \<Rightarrow> Inl e
         | Inr largest \<Rightarrow>
             (case select_columns largest [''Summary'', ''Category'', ''Created'', ''Review_Flag''] of
                Inl e \<Rightarrow> Inl e
              | Inr t \<Rightarrow> Inr (Some t)))
      else Inr None)"

subsection \<open>CSV export\<close>

definition digit :: "nat \<Rightarrow> char" where
  "digit n = char_of (48 + n mod 10)"

definition pad2 :: "nat \<Rightarrow> string" where
  "pad2 n = [digit (n div 10), digit n]"

definition pad4 :: "nat \<Rightarrow> string" where
  "pad4 n = [digit (n div 1000), digit (n div 100), digit (n div 10), digit n]"

text \<open>
  The text of a timestamp in a CSV file: \<open>YYYY-MM-DD HH:MM:SS\<close>, or the date alone when
  every timestamp of its column is at midnight.
\<close>

fun isoformat :: "bool \<Rightarrow> timestamp \<Rightarrow> string" where
  "isoformat dates_only (y, m, d, H, M) =
     pad4 y @ ''-'' @ pad2 m @ ''-'' @ pad2 d @
     (if dates_only then [] else '' '' @ pad2 H @ '':'' @ pad2 M @ '':00'')"

fun midnight :: "cell \<Rightarrow> bool" where
  "midnight (Stamp (y, m, d, H, M)) = (H = 0 \<and> M = 0)"
| "midnight c = True"

fun to_field :: "bool \<Rightarrow> cell \<Rightarrow> string" where
  "to_field dates_only NaN = []"
| "to_field dates_only (Text s) = s"
| "to_field dates_only (Stamp t) = isoformat dates_only t"

text \<open>
  \<open>df.to_csv(index=False)\<close>: the header line, then one record per row with one field
  per column.
\<close>

definition to_csv :: "dataframe \<Rightarrow> csv_file" where
  "to_csv df =
     columns df #
     map (\<lambda>r. map (\<lambda>(i, c). to_field (list_all (\<lambda>r'. midnight (cell_at r' i)) (rows df)) c)
                 (zip [0..<length r] r))
         (rows df)"

subsection \<open>Charts\<close>

text \<open>
  The three chart functions read columns of the view and hand them to pandas and
  plotly (\<open>value_counts\<close>, \<open>to_period\<close>, \<open>groupby\<close>, \<open>px.bar\<close>, \<open>px.pie\<close>).
  What these calls make of the series is library code; it can raise, as \<open>px.bar\<close> does
  for a view without rows. The model keeps the request, that is which figure is built
  from which series, and takes the outcome as a parameter \<open>px\<close>: \<open>Some e\<close> when
  building the figure raises \<open>e\<close>.
\<close>

datatype plot =
    Category_bar "cell list"
  | Review_pie "cell list"
  | Timeline_bar "cell list" "cell list"

type_synonym plotly = "plot \<Rightarrow> py_error option"

definition create_category_bar_chart :: "plotly \<Rightarrow> dataframe \<Rightarrow> py_error + plot" where
  "create_category_bar_chart px df =
     (case get_column df ''Category'' of
        Inl e \<Rightarrow> Inl e
      | Inr cat \<Rightarrow>
          (case px (Category_bar cat) of
             Some e \<Rightarrow> Inl e
           | None \<Rightarrow> Inr (Category_bar cat)))"

definition create_review_flag_chart :: "plotly \<Rightarrow> dataframe \<Rightarrow> py_error + plot" where
  "create_review_flag_chart px df =
     (case get_column df ''Review_Flag'' of
        Inl e \<Rightarrow> Inl e
      | Inr flag \<Rightarrow>
          (case px (Review_pie flag) of
             Some e \<Rightarrow> Inl e
           | None \<Rightarrow> Inr (Review_pie flag)))"

text \<open>Lines 114 to 135: no figure without a Created column.\<close>

definition create_timeline_chart :: "plotly \<Rightarrow> dataframe \<Rightarrow> py_error + plot option" where
  "create_timeline_chart px df =
     (if ''Created'' \<in> set (columns df) then
        (case get_column df ''Created'' of
           Inl e \<Rightarrow> Inl e
         | Inr created_series \<Rightarrow>
        (case get_column df ''Category'' of
           Inl e \<Rightarrow> Inl e
         | Inr cat \<Rightarrow>
            (case px (Timeline_bar created_series cat) of
               Some e \<Rightarrow> Inl e
             | None \<Rightarrow> Inr (Some (Timeline_bar created_series cat)))))
      else Inr None)"

subsection \<open>main\<close>

text \<open>The choices of the user in one run of the page.\<close>

record ui_input =
  selected_category :: string
  selected_review :: string
  show_detailed_data :: bool
  download_filtered_data :: bool

text \<open>
  What a run shows, in order. Markdown, layout and the emoji of the labels are left
  out, as is the time-stamped name of the exported file.
\<close>

datatype ui_event =
    St_error message
  | Selectbox "string list"
  | Date_input "nat \<times> nat \<times> nat" "nat \<times> nat \<times> nat"
  | Metric string nat "delta option"
  | Plotly_chart plot
  | Category_breakdown "(string \<times> nat \<times> nat \<times> nat) list"
  | Recent_issues dataframe
  | All_issues dataframe
  | Download_button csv_file

fun date_of :: "timestamp \<Rightarrow> nat \<times> nat \<times> nat" where
  "date_of (y, m, d, H, M) = (y, m, d)"

text \<open>
  Lines 173 to 181. The Created column of a loaded table holds timestamps and missing
  values, so \<open>notna().any()\<close> is that it holds a timestamp. The chosen range is used
  nowhere in the file.
\<close>

definition date_range_input :: "dataframe \<Rightarrow> py_error + ui_event list" where
  "date_range_input df =
     (if ''Created'' \<in> set (columns df) then
        (case get_column df ''Created'' of
           Inl e \<Rightarrow> Inl e
         | Inr created \<Rightarrow>
             (case List.map_filter stamp_of created of
                [] \<Rightarrow> Inr []
              | t # ts \<Rightarrow> Inr [Date_input (date_of (fold min ts t)) (date_of (fold max ts t))]))
      else Inr [])"

text \<open>Lines 161 to 181.\<close>

definition sidebar :: "dataframe \<Rightarrow> py_error + ui_event list" where
  "sidebar df =
     (case category_options df of
        Inl e \<Rightarrow> Inl e
      | Inr categories \<Rightarrow>
     (case date_range_input df of
        Inl e \<Rightarrow> Inl e
      | Inr dates \<Rightarrow> Inr ([Selectbox categories, Selectbox review_options] @ dates)))"

text \<open>Lines 195 to 225.\<close>

definition metrics_row :: "dataframe \<Rightarrow> py_error + ui_event list" where
  "metrics_row filtered_df =
     (case create_summary_metrics filtered_df of
        Inl e \<Rightarrow> Inl e
      | Inr (total_issues, flagged_issues, unique_categories, resolved_issues) \<Rightarrow>
     (case pct_delta flagged_issues total_issues of
        Inl e \<Rightarrow> Inl e
      | Inr flagged_delta \<Rightarrow>
     (case pct_delta resolved_issues total_issues of
        Inl e \<Rightarrow> Inl e
      | Inr resolved_delta \<Rightarrow>
          Inr [Metric ''Total Issues'' total_issues
                 (if length (rows filtered_df) \<noteq> total_issues
                  then Some (Filtered (length (rows filtered_df))) else None),
               Metric ''Flagged for Review'' flagged_issues (Some flagged_delta),
               Metric ''Categories'' unique_categories None,
               Metric ''Resolved'' resolved_issues (Some resolved_delta)])))"

text \<open>Lines 232 to 245.\<close>

definition charts :: "plotly \<Rightarrow> dataframe \<Rightarrow> py_error + ui_event list" where
  "charts px filtered_df =
     (case create_category_bar_chart px filtered_df of
        Inl e \<Rightarrow> Inl e
      | Inr category_chart \<Rightarrow>
     (case create_review_flag_chart px filtered_df of
        Inl e \<Rightarrow> Inl e
      | Inr review_chart \<Rightarrow>
     (case create_timeline_chart px filtered_df of
        Inl e \<Rightarrow> Inl e
      | Inr timeline_chart \<Rightarrow>
          Inr ([Plotly_chart category_chart, Plotly_chart review_chart] @
               (case timeline_chart of None \<Rightarrow> [] | Some t \<Rightarrow> [Plotly_chart t])))))"

text \<open>Lines 252 to 271.\<close>

definition tables :: "dataframe \<Rightarrow> py_error + ui_event list" where
  "tables filtered_df =
     (case category_stats filtered_df of
        Inl e \<Rightarrow> Inl e
      | Inr stats \<Rightarrow>
     (case recent_issues filtered_df of
        Inl e \<Rightarrow> Inl e
      | Inr recent \<Rightarrow>
          Inr (Category_breakdown stats #
               (case recent of None \<Rightarrow> [] | Some t \<Rightarrow> [Recent_issues t]))))"

definition display_columns :: "string list" where
  "display_columns = [''Summary'', ''Category'', ''Created'', ''Updated'', ''Resolved'', ''Review_Flag'']"

text \<open>Lines 274 to 288.\<close>

definition detail_and_export :: "ui_input \<Rightarrow> dataframe \<Rightarrow> py_error + ui_event list" where
  "detail_and_export ui filtered_df =
     (case (if show_detailed_data ui then
              (case select_columns filtered_df
                      (filter (\<lambda>c. c \<in> set (columns filtered_df)) display_columns) of
                 Inl e \<Rightarrow> Inl e
               | Inr t \<Rightarrow> Inr [All_issues t])
            else Inr []) of
        Inl e \<Rightarrow> Inl e
      | Inr detail \<Rightarrow>
          Inr (detail @
               (if download_filtered_data ui then [Download_button (to_csv filtered_df)] else [])))"

text \<open>Lines 161 to 299: what main does with a loaded table.\<close>

definition dashboard :: "plotly \<Rightarrow> ui_input \<Rightarrow> dataframe \<Rightarrow> py_error + ui_event list" where
  "dashboard px ui df =
     (case sidebar df of
        Inl e \<Rightarrow> Inl e
      | Inr side \<Rightarrow>
     (case apply_filters (selected_category ui) (selected_review ui) df of
        Inl e \<Rightarrow> Inl e
      | Inr filtered_df \<Rightarrow>
     (case metrics_row filtered_df of
        Inl e \<Rightarrow> Inl e
      | Inr metrics \<Rightarrow>
     (case charts px filtered_df of
        Inl e \<Rightarrow> Inl e
      | Inr figures \<Rightarrow>
     (case tables filtered_df of
        Inl e \<Rightarrow> Inl e
      | Inr tabs \<Rightarrow>
     (case detail_and_export ui filtered_df of
        Inl e \<Rightarrow> Inl e
      | Inr rest \<Rightarrow> Inr (side @ metrics @ figures @ tabs @ rest)))))))"

text \<open>
  \<open>main\<close>: \<open>Inr\<close> the events of a run that ends, \<open>Inl\<close> the exception of a run
  that raises (Streamlit then shows the traceback; what the page showed before is not
  kept). When \<open>load_data\<close> returns \<open>None\<close> the run shows the two error messages and
  returns (lines 157 to 159).
\<close>

definition main ::
  "plotly \<Rightarrow> parser \<Rightarrow> ui_input \<Rightarrow> csv_file option \<Rightarrow> py_error + ui_event list" where
  "main px strptime ui file =
     (case load_data strptime file of
        (msgs, None) \<Rightarrow> Inr (map St_error msgs @ [St_error Failed_to_load_data])
      | (msgs, Some df) \<Rightarrow>
          (case dashboard px ui df of
             Inl e \<Rightarrow> Inl e
           | Inr events \<Rightarrow> Inr (map St_error msgs @ events)))"

section \<open>Definitions for the statements\<close>

text \<open>Every row has one cell per column.\<close>

definition well_formed :: "dataframe \<Rightarrow> bool" where
  "well_formed df = list_all (\<lambda>r. length r = length (columns df)) (rows df)"

text \<open>What \<open>load_data\<close> does to the column \<open>c\<close> of the table that \<open>read_csv\<close> returns.\<close>

definition loaded_column :: "parser \<Rightarrow> string \<Rightarrow> cell list \<Rightarrow> cell list" where
  "loaded_column strptime c s =
     (if c = ''Category'' then map (fillna (Text ''Uncategorized'')) s
      else if c = ''Review_Flag'' then map (fillna (Text ''NO'')) s
      else if c \<in> set date_columns then map (to_datetime strptime) s
      else s)"

text \<open>
  A parser to run the model on concrete files: it accepts the zero-padded texts
  \<open>dd/mm/YYYY HH:MM\<close> and checks the ranges of the fields (not the length of the month).
\<close>

definition digit_val :: "char \<Rightarrow> nat option" where
  "digit_val c =
     (let n = (of_char c :: nat) in if 48 \<le> n \<and> n \<le> 57 then Some (n - 48) else None)"

fun number :: "string \<Rightarrow> nat option" where
  "number [] = Some 0"
| "number (c # cs) =
     (case (digit_val c, number cs) of
        (Some v, Some w) \<Rightarrow> Some (v * 10 ^ length cs + w)
      | _ \<Rightarrow> None)"

definition strptime_padded :: parser where
  "strptime_padded s =
     (if length s = 16 \<and> s ! 2 = CHR ''/'' \<and> s ! 5 = CHR ''/'' \<and> s ! 10 = CHR '' '' \<and>
         s ! 13 = CHR '':'' then
        (case (number (take 2 s), number (take 2 (drop 3 s)), number (take 4 (drop 6 s)),
               number (take 2 (drop 11 s)), number (take 2 (drop 14 s))) of
           (Some d, Some m, Some y, Some H, Some M) \<Rightarrow>
             if 1 \<le> d \<and> d \<le> 31 \<and> 1 \<le> m \<and> m \<le> 12 \<and> H < 24 \<and> M < 60
             then Some (y, m, d, H, M) else None
         | _ \<Rightarrow> None)
      else None)"

text \<open>
  A file with a record of missing values, a date that does not parse, a blank line, a
  short record, a Category named \<open>All\<close> and a review flag that is neither \<open>YES\<close> nor
  \<open>NO\<close>; the table \<open>read_csv\<close> makes of it, and the table \<open>load_data\<close> returns.
\<close>

definition sample_csv :: csv_file where
  "sample_csv =
     [[''Summary'', ''Category'', ''Review_Flag'', ''Created'', ''Resolved''],
      [''Login fails'', ''Access'', ''YES'', ''15/01/2024 10:30'', []],
      [[], [], [], ''yesterday'', ''16/01/2024 00:00''],
      [],
      [''Slow page'', ''All'', ''NO'', ''14/01/2024 09:00''],
      [''Crash'', ''Access'', ''MAYBE'', [], []]]"


definition sample_df :: dataframe where
  "sample_df =
     \<lparr>columns = [''Summary'', ''Category'', ''Review_Flag'', ''Created'', ''Resolved''],
      rows = [[Text ''Login fails'', Text ''Access'', Text ''YES'', Stamp (2024, 1, 15, 10, 30), NaN],
              [NaN, Text ''Uncategorized'', Text ''NO'', NaN, Stamp (2024, 1, 16, 0, 0)],
              [Text ''Slow page'', Text ''All'', Text ''NO'', Stamp (2024, 1, 14, 9, 0), NaN],
              [Text ''Crash'', Text ''Access'', Text ''MAYBE'', NaN, NaN]],
      numeric_columns = []\<rparr>"

text \<open>A file without a Resolved column, the table made of it, and a choice of the user.\<close>

definition no_resolved_csv :: csv_file where
  "no_resolved_csv =
     [[''Summary'', ''Category'', ''Review_Flag''],
      [''Login fails'', ''Access'', ''YES'']]"

definition no_resolved_df :: dataframe where
  "no_resolved_df =
     \<lparr>columns = [''Summary'', ''Category'', ''Review_Flag''],
      rows = [[Text ''Login fails'', Text ''Access'', Text ''YES'']],
      numeric_columns = []\<rparr>"

definition sample_ui :: ui_input where
  "sample_ui =
     \<lparr>selected_category = ''All'', selected_review = ''All'',
      show_detailed_data = True, download_filtered_data = True\<rparr>"

text \<open>
  The Created timestamp of a row, \<open>None\<close> when the row has none. In the order of
  \<open>timestamp option\<close>, \<open>None\<close> is below every timestamp.
\<close>

definition created :: "dataframe \<Rightarrow> cell list \<Rightarrow> timestamp option" where
  "created df r = stamp_of (column_cell df r ''Created'')"

text \<open>
  A table of twelve rows, eleven of them created on the days 1 to 11 of a month and
  the last without a timestamp, and its Recent Issues table.
\<close>

definition busy_df :: dataframe where
  "busy_df =
     \<lparr>columns = [''Summary'', ''Category'', ''Review_Flag'', ''Created'', ''Resolved''],
      rows = map (\<lambda>d. [Text ''Slow page'', Text ''Access'', Text ''NO'', Stamp (2024, 1, d, 9, 0), NaN])
               [1..<12] @
             [[Text ''Crash'', Text ''Access'', Text ''YES'', NaN, NaN]],
      numeric_columns = []\<rparr>"

definition busy_recent :: dataframe where
  "busy_recent =
     \<lparr>columns = [''Summary'', ''Category'', ''Created'', ''Review_Flag''],
      rows = map (\<lambda>d. [Text ''Slow page'', Text ''Access'', Stamp (2024, 1, d, 9, 0), Text ''NO''])
               (rev [2..<12]),
      numeric_columns = []\<rparr>"

text \<open>The Recent Issues table of the sample table.\<close>

definition sample_recent :: dataframe where
  "sample_recent =
     \<lparr>columns = [''Summary'', ''Category'', ''Created'', ''Review_Flag''],
      rows = [[Text ''Login fails'', Text ''Access'', Stamp (2024, 1, 15, 10, 30), Text ''YES''],
              [Text ''Slow page'', Text ''All'', Stamp (2024, 1, 14, 9, 0), Text ''NO''],
              [NaN, Text ''Uncategorized'', NaN, Text ''NO''],
              [Text ''Crash'', Text ''Access'', NaN, Text ''MAYBE'']],
      numeric_columns = []\<rparr>"

text \<open>A library that builds every figure, and one whose \<open>px.bar\<close> refuses an empty series.\<close>

definition px_ok :: plotly where
  "px_ok p = None"

definition px_strict :: plotly where
  "px_strict p = (case p of Category_bar s \<Rightarrow> (if s = [] then Some ValueError else None) | _ \<Rightarrow> None)"

text \<open>The CSV texts that a run offers for download.\<close>

fun export_of :: "ui_event \<Rightarrow> csv_file option" where
  "export_of (Download_button csv) = Some csv"
| "export_of e = None"

definition exported :: "ui_event list \<Rightarrow> csv_file list" where
  "exported events = List.map_filter export_of events"

text \<open>
  A file of eleven records, two of them with a Created timestamp, the table
  \<open>load_data\<close> makes of it and its Recent Issues table.
\<close>

definition sparse_csv :: csv_file where
  "sparse_csv =
     [[''Summary'', ''Category'', ''Review_Flag'', ''Created'', ''Resolved''],
      [''Login fails'', ''Access'', ''YES'', ''15/01/2024 10:30'', ''16/01/2024 00:00''],
      [''Slow page'', ''Access'', ''NO'', ''14/01/2024 09:00'', []]] @
     map (\<lambda>k. [''Issue '' @ [digit k], ''Access'', ''NO'', [], []]) [1..<10]"

definition sparse_df :: dataframe where
  "sparse_df =
     \<lparr>columns = [''Summary'', ''Category'', ''Review_Flag'', ''Created'', ''Resolved''],
      rows = [[Text ''Login fails'', Text ''Access'', Text ''YES'', Stamp (2024, 1, 15, 10, 30),
               Stamp (2024, 1, 16, 0, 0)],
              [Text ''Slow page'', Text ''Access'', Text ''NO'', Stamp (2024, 1, 14, 9, 0), NaN]] @
             map (\<lambda>k. [Text (''Issue '' @ [digit k]), Text ''Access'', Text ''NO'', NaN, NaN]) [1..<10],
      numeric_columns = []\<rparr>"

definition sparse_recent :: dataframe where
  "sparse_recent =
     \<lparr>columns = [''Summary'', ''Category'', ''Created'', ''Review_Flag''],
      rows = [[Text ''Login fails'', Text ''Access'', Stamp (2024, 1, 15, 10, 30), Text ''YES''],
              [Text ''Slow page'', Text ''Access'', Stamp (2024, 1, 14, 9, 0), Text ''NO'']] @
             map (\<lambda>k. [Text (''Issue '' @ [digit k]), Text ''Access'', NaN, Text ''NO'']) [1..<9],
      numeric_columns = []\<rparr>"

text \<open>
  The choice of the Category \<open>Access\<close> with the download button pressed, and the
  events of the run of \<open>main\<close> on the sample file under that choice.
\<close>

definition access_ui :: ui_input where
  "access_ui =
     \<lparr>selected_category = ''Access'', selected_review = ''All'',
      show_detailed_data = False, download_filtered_data = True\<rparr>"

definition access_events :: "ui_event list" where
  "access_events =
     [Selectbox [''All'', ''Access'', ''All'', ''Uncategorized''],
      Selectbox [''All'', ''Flagged for Review'', ''Auto-Assigned''],
      Date_input (2024, 1, 14) (2024, 1, 15),
      Metric ''Total Issues'' 2 None,
      Metric ''Flagged for Review'' 1 (Some (Pct1f 50)),
      Metric ''Categories'' 1 None,
      Metric ''Resolved'' 0 (Some (Pct1f 0)),
      Plotly_chart (Category_bar [Text ''Access'', Text ''Access'']),
      Plotly_chart (Review_pie [Text ''YES'', Text ''MAYBE'']),
      Plotly_chart (Timeline_bar [Stamp (2024, 1, 15, 10, 30), NaN] [Text ''Access'', Text ''Access'']),
      Category_breakdown [(''Access'', 2, 1, 0)],
      Recent_issues
        \<lparr>columns = [''Summary'', ''Category'', ''Created'', ''Review_Flag''],
         rows = [[Text ''Login fails'', Text ''Access'', Stamp (2024, 1, 15, 10, 30), Text ''YES''],
                 [Text ''Crash'', Text ''Access'', NaN, Text ''MAYBE'']],
         numeric_columns = []\<rparr>,
      Download_button
        [[''Summary'', ''Category'', ''Review_Flag'', ''Created'', ''Resolved''],
         [''Login fails'', ''Access'', ''YES'', ''2024-01-15 10:30:00'', []],
         [''Crash'', ''Access'', ''MAYBE'', [], []]]]"

text \<open>A file whose Category column holds numbers and an empty field.\<close>

definition numbered_csv :: csv_file where
  "numbered_csv =
     [[''Summary'', ''Category'', ''Review_Flag'', ''Resolved''],
      [''Login fails'', ''10'', ''YES'', ''16/01/2024 00:00''],
      [''Slow page'', [], ''NO'', []],
      [''Crash'', ''2'', ''NO'', []]]"

definition numbered_df :: dataframe where
  "numbered_df =
     \<lparr>columns = [''Summary'', ''Category'', ''Review_Flag'', ''Resolved''],
      rows = [[Text ''Login fails'', Text ''10'', Text ''YES'', Stamp (2024, 1, 16, 0, 0)],
              [Text ''Slow page'', Text ''Uncategorized'', Text ''NO'', NaN],
              [Text ''Crash'', Text ''2'', Text ''NO'', NaN]],
      numeric_columns = [''Category'']\<rparr>"

section \<open>Columns of a table\<close>

lemma index_of_None: "index_of a xs = None \<longleftrightarrow> a \<notin> set xs"
  by (induction xs) (auto split: option.splits)

lemma index_of_Some: "index_of a xs = Some i \<Longrightarrow> i < length xs \<and> xs ! i = a"
  by (induction xs arbitrary: i) (auto split: option.splits if_splits)

lemma index_of_mem: "a \<in> set xs \<Longrightarrow> \<exists>i. index_of a xs = Some i"
  using index_of_None [of a xs] by (cases "index_of a xs") auto

lemma index_of_inj: "index_of a xs = Some i \<Longrightarrow> index_of b xs = Some i \<Longrightarrow> a = b"
  using index_of_Some [of a xs i] index_of_Some [of b xs i] by simp

lemma get_column_Inr: "c \<in> set (columns df) \<Longrightarrow> \<exists>s. get_column df c = Inr s"
  using index_of_mem [of c "columns df"] by (auto simp: get_column_def)

lemma get_column_Inl: "c \<notin> set (columns df) \<Longrightarrow> get_column df c = Inl (KeyError c)"
  using index_of_None [of c "columns df"] by (auto simp: get_column_def)

lemma get_column_mem: "get_column df c = Inr s \<Longrightarrow> c \<in> set (columns df)"
  using get_column_Inl [of c df] by auto

lemma get_column_length: "get_column df c = Inr s \<Longrightarrow> length s = length (rows df)"
  by (auto simp: get_column_def split: option.splits)

lemma get_column_eq: "get_column df c = Inr s \<Longrightarrow> s = map (\<lambda>r. column_cell df r c) (rows df)"
  by (auto simp: get_column_def column_cell_def split: option.splits)

lemma align_record_length:
  "length r \<le> w \<Longrightarrow> length (align_record w k r) = w - k"
  by (simp add: align_record_def)

lemma read_csv_Inr:
  assumes "read_csv file = Inr df"
  shows "\<exists>w fields. length (columns df) \<le> w \<and>
           (\<forall>r\<in>set fields. length r = length (columns df)) \<and>
           rows df = map (map parse_field) fields"
proof -
  obtain lines where lines: "file = Some lines"
    using assms by (cases "file") (auto simp: read_csv_def)
  obtain header records where hr: "filter (\<lambda>l. l \<noteq> []) lines = header # records"
    using assms lines by (cases "filter (\<lambda>l. l \<noteq> []) lines") (auto simp: read_csv_def)
  define w where "w = (case records of [] \<Rightarrow> length header | first # later \<Rightarrow> max (length header) (length first))"
  define fields where "fields = map (align_record w (w - length header)) records"
  have wn: "length header \<le> w" by (cases records) (auto simp: w_def)
  have ok: "\<not> list_ex (\<lambda>r. w < length r) records"
    using assms lines hr by (auto simp: read_csv_def Let_def w_def split: if_splits)
  have df: "columns df = header" "rows df = map (map parse_field) fields"
    using assms lines hr ok by (auto simp: read_csv_def Let_def w_def fields_def split: if_splits)
  have "length r = length header" if rin: "r \<in> set fields" for r
  proof -
    obtain r0 where r0: "r0 \<in> set records" "r = align_record w (w - length header) r0"
      using rin by (auto simp: fields_def)
    have "length r0 \<le> w" using ok r0(1) by (auto simp: list_ex_iff not_less)
    then show ?thesis using r0(2) wn by (simp add: align_record_length)
  qed
  then show ?thesis using df wn by auto
qed

lemma read_csv_well_formed: "read_csv file = Inr df \<Longrightarrow> well_formed df"
  using read_csv_Inr [of "file" df] by (auto simp: well_formed_def list_all_iff)

lemma set_column_columns: "c \<in> set (columns df) \<Longrightarrow> columns (set_column df c vs) = columns df"
  using index_of_mem [of c "columns df"] by (auto simp: set_column_def)

lemma set_column_length:
  "length vs = length (rows df) \<Longrightarrow> length (rows (set_column df c vs)) = length (rows df)"
  by (auto simp: set_column_def split: option.splits)

lemma set_column_well_formed:
  "c \<in> set (columns df) \<Longrightarrow> well_formed df \<Longrightarrow> well_formed (set_column df c vs)"
  using index_of_mem [of c "columns df"]
  by (auto simp: set_column_def well_formed_def list_all_iff dest!: set_zip_leftD)

lemma get_set_column_same:
  assumes "c \<in> set (columns df)" "well_formed df" "length vs = length (rows df)"
  shows "get_column (set_column df c vs) c = Inr vs"
proof -
  obtain i where i: "index_of c (columns df) = Some i"
    using assms(1) index_of_mem by fastforce
  then have lt: "i < length (columns df)" using index_of_Some by fastforce
  have "map (\<lambda>r. cell_at r i) (map (\<lambda>(r, v). r[i := v]) (zip (rows df) vs)) = map snd (zip (rows df) vs)"
    using assms(2) lt
    by (auto simp: well_formed_def list_all_iff cell_at_def dest!: set_zip_leftD)
  also have "\<dots> = vs" using assms(3) by simp
  finally show ?thesis using i by (simp add: get_column_def set_column_def)
qed

lemma get_set_column_other:
  assumes "c \<in> set (columns df)" "c' \<noteq> c" "length vs = length (rows df)"
  shows "get_column (set_column df c vs) c' = get_column df c'"
proof -
  obtain i where i: "index_of c (columns df) = Some i"
    using assms(1) index_of_mem by fastforce
  show ?thesis
  proof (cases "index_of c' (columns df)")
    case None
    then show ?thesis using i by (simp add: get_column_def set_column_def)
  next
    case (Some j)
    then have ne: "j \<noteq> i" using i assms(2) index_of_inj by fastforce
    have "map (\<lambda>r. cell_at r j) (map (\<lambda>(r, v). r[i := v]) (zip (rows df) vs))
          = map (\<lambda>r. cell_at r j) (map fst (zip (rows df) vs))"
      using ne by (auto simp: cell_at_def)
    also have "map fst (zip (rows df) vs) = rows df" using assms(3) by simp
    finally show ?thesis using i Some by (simp add: get_column_def set_column_def)
  qed
qed


section \<open>load_data\<close>

lemma convert_dates_spec:
  assumes "well_formed df" "distinct cols"
  shows "\<exists>df'. convert_dates strptime cols df = Inr df' \<and> columns df' = columns df \<and>
           well_formed df' \<and> length (rows df') = length (rows df) \<and>
           (\<forall>c s. get_column df c = Inr s \<longrightarrow>
              get_column df' c = Inr (if c \<in> set cols then map (to_datetime strptime) s else s))"
  using assms
proof (induction cols arbitrary: df)
  case Nil
  then show ?case by simp
next
  case (Cons col cols)
  show ?case
  proof (cases "col \<in> set (columns df)")
    case False
    then have no: "\<And>s. get_column df col \<noteq> Inr s"
      using get_column_mem by blast
    obtain df' where d: "convert_dates strptime cols df = Inr df'" "columns df' = columns df"
        "well_formed df'" "length (rows df') = length (rows df)"
        and g: "\<And>c s. get_column df c = Inr s \<Longrightarrow>
              get_column df' c = Inr (if c \<in> set cols then map (to_datetime strptime) s else s)"
      using Cons.IH [of df] Cons.prems by auto
    have "get_column df c = Inr s \<Longrightarrow>
            get_column df' c = Inr (if c \<in> set (col # cols) then map (to_datetime strptime) s else s)" for c s
      using g [of c s] no [of s] by auto
    then show ?thesis using False d by auto
  next
    case True
    then obtain s0 where s0: "get_column df col = Inr s0"
      using get_column_Inr by blast
    let ?vs = "map (to_datetime strptime) s0"
    let ?d1 = "set_column df col ?vs"
    have len: "length ?vs = length (rows df)" using s0 get_column_length by fastforce
    have wf1: "well_formed ?d1" using True Cons.prems set_column_well_formed by blast
    have cols1: "columns ?d1 = columns df" using True set_column_columns by blast
    have rows1: "length (rows ?d1) = length (rows df)" using len set_column_length by blast
    obtain df' where d: "convert_dates strptime cols ?d1 = Inr df'" "columns df' = columns ?d1"
        "well_formed df'" "length (rows df') = length (rows ?d1)"
        and g: "\<And>c s. get_column ?d1 c = Inr s \<Longrightarrow>
              get_column df' c = Inr (if c \<in> set cols then map (to_datetime strptime) s else s)"
      using Cons.IH [of ?d1] wf1 Cons.prems by auto
    have "get_column df' c = Inr (if c \<in> set (col # cols) then map (to_datetime strptime) s else s)"
      if c: "get_column df c = Inr s" for c s
    proof (cases "c = col")
      case True
      then have "s = s0" using c s0 by simp
      moreover have "get_column ?d1 col = Inr ?vs"
        using get_set_column_same [OF \<open>col \<in> set (columns df)\<close> Cons.prems(1) len] .
      moreover have "col \<notin> set cols" using Cons.prems by simp
      ultimately show ?thesis using g [of col ?vs] True by simp
    next
      case False
      then have "get_column ?d1 c = Inr s"
        using get_set_column_other [OF \<open>col \<in> set (columns df)\<close> False len] c by simp
      then show ?thesis using g [of c s] False by simp
    qed
    then show ?thesis using True s0 d cols1 rows1 by auto
  qed
qed

lemma load_data_try_spec:
  assumes "read_csv file = Inr raw" "''Category'' \<in> set (columns raw)"
    "''Review_Flag'' \<in> set (columns raw)"
  shows "\<exists>df. load_data_try strptime file = Inr df \<and> columns df = columns raw \<and>
           well_formed df \<and> length (rows df) = length (rows raw) \<and>
           (\<forall>c s. get_column raw c = Inr s \<longrightarrow> get_column df c = Inr (loaded_column strptime c s))"
proof -
  have wf: "well_formed raw" using assms(1) read_csv_well_formed by blast
  have dist: "distinct date_columns" by (simp add: date_columns_def)
  obtain df1 where d1: "convert_dates strptime date_columns raw = Inr df1" "columns df1 = columns raw"
      "well_formed df1" "length (rows df1) = length (rows raw)"
      and g1: "\<And>c s. get_column raw c = Inr s \<Longrightarrow>
         get_column df1 c = Inr (if c \<in> set date_columns then map (to_datetime strptime) s else s)"
    using convert_dates_spec [OF wf dist, of strptime] by auto
  have cat_in: "''Category'' \<in> set (columns df1)" and flag_in: "''Review_Flag'' \<in> set (columns df1)"
    using assms d1 by auto
  obtain cat where cat: "get_column df1 ''Category'' = Inr cat"
    using cat_in get_column_Inr by blast
  let ?cat' = "map (fillna (Text ''Uncategorized'')) cat"
  let ?df2 = "set_column df1 ''Category'' ?cat'"
  have len2: "length ?cat' = length (rows df1)" using cat get_column_length by fastforce
  have cols2: "columns ?df2 = columns df1" using cat_in set_column_columns by blast
  have wf2: "well_formed ?df2" using cat_in d1 set_column_well_formed by blast
  have rows2: "length (rows ?df2) = length (rows df1)" using len2 set_column_length by blast
  obtain flag where flag: "get_column ?df2 ''Review_Flag'' = Inr flag"
    using flag_in cols2 get_column_Inr by metis
  let ?flag' = "map (fillna (Text ''NO'')) flag"
  let ?df3 = "set_column ?df2 ''Review_Flag'' ?flag'"
  have flag_in2: "''Review_Flag'' \<in> set (columns ?df2)" using flag_in cols2 by simp
  have len3: "length ?flag' = length (rows ?df2)" using flag get_column_length by fastforce
  have cols3: "columns ?df3 = columns ?df2" using flag_in2 set_column_columns by blast
  have wf3: "well_formed ?df3" using flag_in2 wf2 set_column_well_formed by blast
  have rows3: "length (rows ?df3) = length (rows ?df2)" using len3 set_column_length by blast
  have res: "load_data_try strptime file = Inr ?df3"
    using assms(1) d1(1) cat flag by (simp add: load_data_try_def Let_def)
  have col: "get_column ?df3 c = Inr (loaded_column strptime c s)" if c: "get_column raw c = Inr s" for c s
  proof -
    have c1: "get_column df1 c = Inr (if c \<in> set date_columns then map (to_datetime strptime) s else s)"
      using g1 [OF c] .
    consider "c = ''Category''" | "c = ''Review_Flag''" | "c \<noteq> ''Category''" "c \<noteq> ''Review_Flag''"
      by blast
    then show ?thesis
    proof cases
      case 1
      then have "cat = s" using c1 cat by (simp add: date_columns_def)
      moreover have "get_column ?df2 ''Category'' = Inr ?cat'"
        using get_set_column_same [OF cat_in d1(3) len2] .
      moreover have "get_column ?df3 ''Category'' = get_column ?df2 ''Category''"
        using get_set_column_other [OF flag_in2 _ len3, of "''Category''"] by simp
      ultimately show ?thesis using 1 by (simp add: loaded_column_def)
    next
      case 2
      have "get_column ?df2 ''Review_Flag'' = get_column df1 ''Review_Flag''"
        using get_set_column_other [OF cat_in _ len2, of "''Review_Flag''"] by simp
      then have "flag = s" using c1 flag 2 by (simp add: date_columns_def)
      moreover have "get_column ?df3 ''Review_Flag'' = Inr ?flag'"
        using get_set_column_same [OF flag_in2 wf2 len3] .
      ultimately show ?thesis using 2 by (simp add: loaded_column_def)
    next
      case 3
      have "get_column ?df3 c = get_column ?df2 c"
        using get_set_column_other [OF flag_in2 3(2) len3] .
      also have "\<dots> = get_column df1 c"
        using get_set_column_other [OF cat_in 3(1) len2] .
      finally show ?thesis using c1 3 by (simp add: loaded_column_def)
    qed
  qed
  show ?thesis using res cols3 cols2 d1 wf3 rows3 rows2 col by auto
qed

lemma load_data_try_Inr:
  assumes "load_data_try strptime file = Inr df"
  shows "\<exists>raw. read_csv file = Inr raw \<and> ''Category'' \<in> set (columns raw) \<and>
           ''Review_Flag'' \<in> set (columns raw)"
proof -
  obtain raw where raw: "read_csv file = Inr raw"
    using assms by (cases "read_csv file") (auto simp: load_data_try_def)
  have wf: "well_formed raw" using raw read_csv_well_formed by blast
  have dist: "distinct date_columns" by (simp add: date_columns_def)
  obtain df1 where d1: "convert_dates strptime date_columns raw = Inr df1" "columns df1 = columns raw"
      "well_formed df1" "length (rows df1) = length (rows raw)"
    using convert_dates_spec [OF wf dist, of strptime] by auto
  obtain cat where cat: "get_column df1 ''Category'' = Inr cat"
    using assms raw d1(1) by (cases "get_column df1 ''Category''") (auto simp: load_data_try_def)
  then have cat_in: "''Category'' \<in> set (columns df1)" using get_column_mem by blast
  let ?df2 = "set_column df1 ''Category'' (map (fillna (Text ''Uncategorized'')) cat)"
  obtain flag where flag: "get_column ?df2 ''Review_Flag'' = Inr flag"
    using assms raw d1(1) cat
    by (cases "get_column ?df2 ''Review_Flag''") (auto simp: load_data_try_def Let_def)
  then have "''Review_Flag'' \<in> set (columns ?df2)" using get_column_mem by blast
  then have "''Review_Flag'' \<in> set (columns df1)" using cat_in set_column_columns by metis
  then show ?thesis using raw cat_in d1(2) by auto
qed

section \<open>Results of load_data\<close>

lemma load_data_Some:
  assumes "load_data strptime file = (msgs, Some df)"
  shows "msgs = [] \<and> load_data_try strptime file = Inr df"
  using assms by (cases "load_data_try strptime file") (auto simp: load_data_def)

lemma fillna_notna: "notna v \<Longrightarrow> notna (fillna v c)"
  by (cases c) auto

section \<open>Claims about load_data\<close>

text \<open>
  Claim C1. For every table that \<open>load_data\<close> returns, the Category column is the
  Category column of the file with every missing value replaced by \<open>Uncategorized\<close>,
  the Review\_Flag column is that of the file with every missing value replaced by
  \<open>NO\<close>, and neither column holds a missing value.
\<close>

theorem load_data_fills_missing:
  assumes "load_data strptime file = (msgs, Some df)"
  shows "\<exists>raw cat flag.
           read_csv file = Inr raw \<and>
           get_column raw ''Category'' = Inr cat \<and>
           get_column raw ''Review_Flag'' = Inr flag \<and>
           get_column df ''Category'' = Inr (map (fillna (Text ''Uncategorized'')) cat) \<and>
           get_column df ''Review_Flag'' = Inr (map (fillna (Text ''NO'')) flag) \<and>
           list_all notna (map (fillna (Text ''Uncategorized'')) cat) \<and>
           list_all notna (map (fillna (Text ''NO'')) flag)"
proof -
  have ok: "load_data_try strptime file = Inr df"
    using assms load_data_Some by blast
  obtain raw where raw: "read_csv file = Inr raw" "''Category'' \<in> set (columns raw)"
      "''Review_Flag'' \<in> set (columns raw)"
    using load_data_try_Inr [OF ok] by blast
  obtain cat where cat: "get_column raw ''Category'' = Inr cat"
    using raw(2) get_column_Inr by blast
  obtain flag where flag: "get_column raw ''Review_Flag'' = Inr flag"
    using raw(3) get_column_Inr by blast
  obtain df' where df': "load_data_try strptime file = Inr df'"
      and col: "\<And>c s. get_column raw c = Inr s \<Longrightarrow> get_column df' c = Inr (loaded_column strptime c s)"
    using load_data_try_spec [OF raw, of strptime] by blast
  have eq: "df' = df" using df' ok by simp
  have c1: "get_column df ''Category'' = Inr (map (fillna (Text ''Uncategorized'')) cat)"
    using col [OF cat] eq by (simp add: loaded_column_def)
  have c2: "get_column df ''Review_Flag'' = Inr (map (fillna (Text ''NO'')) flag)"
    using col [OF flag] eq by (simp add: loaded_column_def)
  have n1: "list_all notna (map (fillna (Text ''Uncategorized'')) cat)"
    by (simp add: list_all_iff fillna_notna)
  have n2: "list_all notna (map (fillna (Text ''NO'')) flag)"
    by (simp add: list_all_iff fillna_notna)
  show ?thesis using raw(1) cat flag c1 c2 n1 n2 by blast
qed

theorem load_data_fills_missing_witness:
  "load_data strptime_padded (Some sample_csv) = ([], Some sample_df) \<and>
   (\<exists>raw cat flag.
      read_csv (Some sample_csv) = Inr raw \<and>
      get_column raw ''Category'' = Inr cat \<and>
      get_column raw ''Review_Flag'' = Inr flag \<and>
      get_column sample_df ''Category'' = Inr (map (fillna (Text ''Uncategorized'')) cat) \<and>
      get_column sample_df ''Review_Flag'' = Inr (map (fillna (Text ''NO'')) flag) \<and>
      list_all notna (map (fillna (Text ''Uncategorized'')) cat) \<and>
      list_all notna (map (fillna (Text ''NO'')) flag))"
proof -
  have h: "load_data strptime_padded (Some sample_csv) = ([], Some sample_df)"
    by code_simp
  show ?thesis using h load_data_fills_missing [OF h] by blast
qed



section \<open>Filters\<close>

lemma mask_filter: "map fst (filter snd (zip xs (map P xs))) = filter P xs"
  by (induction xs) auto

lemma boolean_index_eq_mask:
  assumes "get_column df c = Inr col"
  shows "rows (boolean_index df (eq_mask col s)) = filter (\<lambda>r. column_cell df r c = Text s) (rows df)"
proof -
  have "col = map (\<lambda>r. column_cell df r c) (rows df)"
    using assms get_column_eq by blast
  then have "eq_mask col s = map (\<lambda>r. column_cell df r c = Text s) (rows df)"
    by (simp add: eq_mask_def)
  then show ?thesis by (simp add: boolean_index_def mask_filter)
qed

lemma boolean_index_columns: "columns (boolean_index df keep) = columns df"
  by (simp add: boolean_index_def)

lemma boolean_index_subset: "set (rows (boolean_index df keep)) \<subseteq> set (rows df)"
  by (auto simp: boolean_index_def dest: set_zip_leftD)

lemma filter_category_rows:
  assumes "''Category'' \<in> set (columns df)" "c \<noteq> ''All''"
  shows "\<exists>v. filter_category c df = Inr v \<and> columns v = columns df \<and>
           rows v = filter (\<lambda>r. column_cell df r ''Category'' = Text c) (rows df)"
proof -
  obtain col where col: "get_column df ''Category'' = Inr col"
    using assms(1) get_column_Inr by blast
  then show ?thesis
    using assms(2) boolean_index_eq_mask [OF col, of c]
    by (simp add: filter_category_def boolean_index_columns)
qed

lemma filter_review_rows:
  assumes "''Review_Flag'' \<in> set (columns df)"
  shows "\<exists>v. filter_review sel df = Inr v \<and> columns v = columns df \<and>
           rows v =
             (if sel = ''Flagged for Review''
              then filter (\<lambda>r. column_cell df r ''Review_Flag'' = Text ''YES'') (rows df)
              else if sel = ''Auto-Assigned''
              then filter (\<lambda>r. column_cell df r ''Review_Flag'' = Text ''NO'') (rows df)
              else rows df)"
proof -
  obtain col where col: "get_column df ''Review_Flag'' = Inr col"
    using assms(1) get_column_Inr by blast
  show ?thesis
    using col boolean_index_eq_mask [OF col]
    by (simp add: filter_review_def boolean_index_columns)
qed

lemma read_csv_cells:
  assumes "read_csv file = Inr raw" "get_column raw c = Inr s" "x \<in> set s"
  shows "x = NaN \<or> (\<exists>t. x = Text t)"
proof -
  obtain fields where "rows raw = map (map parse_field) fields"
    using read_csv_Inr [OF assms(1)] by blast
  then have "\<forall>r\<in>set (rows raw). \<forall>y\<in>set r. y = NaN \<or> (\<exists>t. y = Text t)"
    by (auto simp: parse_field_def)
  then have "\<forall>r\<in>set (rows raw). \<forall>i. cell_at r i = NaN \<or> (\<exists>t. cell_at r i = Text t)"
    by (auto simp: cell_at_def)
  then show ?thesis using assms(2,3)
    by (fastforce simp: get_column_def split: option.splits)
qed

lemma load_data_columns:
  assumes "load_data strptime file = (msgs, Some df)"
  shows "''Category'' \<in> set (columns df) \<and> ''Review_Flag'' \<in> set (columns df) \<and> well_formed df"
proof -
  have ok: "load_data_try strptime file = Inr df"
    using assms load_data_Some by blast
  obtain raw where raw: "read_csv file = Inr raw" "''Category'' \<in> set (columns raw)"
      "''Review_Flag'' \<in> set (columns raw)"
    using load_data_try_Inr [OF ok] by blast
  show ?thesis using load_data_try_spec [OF raw, of strptime] ok raw(2,3) by auto
qed

lemma load_data_category_text:
  assumes "load_data strptime file = (msgs, Some df)"
  shows "\<exists>cat. get_column df ''Category'' = Inr cat \<and> (\<forall>x\<in>set cat. \<exists>t. x = Text t)"
proof -
  have ok: "load_data_try strptime file = Inr df"
    using assms load_data_Some by blast
  obtain raw where raw: "read_csv file = Inr raw" "''Category'' \<in> set (columns raw)"
      "''Review_Flag'' \<in> set (columns raw)"
    using load_data_try_Inr [OF ok] by blast
  obtain cat where cat: "get_column raw ''Category'' = Inr cat"
    using raw(2) get_column_Inr by blast
  have "get_column df ''Category'' = Inr (loaded_column strptime ''Category'' cat)"
    using load_data_try_spec [OF raw, of strptime] ok cat by auto
  moreover have "\<exists>t. fillna (Text ''Uncategorized'') x = Text t" if "x \<in> set cat" for x
    using read_csv_cells [OF raw(1) cat that] by auto
  ultimately show ?thesis by (auto simp: loaded_column_def)
qed

lemma those_text:
  "\<forall>x\<in>set xs. \<exists>t. x = Text t \<Longrightarrow> \<exists>ss. those (map text_of xs) = Some ss \<and> map Text ss = xs"
  by (induction xs) auto

lemma set_unique: "set (unique xs) = set xs"
  by (simp add: unique_def)

lemma set_py_order: "set (py_order numeric ss) = set ss"
  by (auto simp: py_order_def)

lemma distinct_py_order: "distinct ss \<Longrightarrow> distinct (py_order numeric ss)"
  by (auto simp: py_order_def)

lemma category_options_spec:
  assumes "get_column df ''Category'' = Inr cat" "\<forall>x\<in>set cat. \<exists>t. x = Text t"
    and "category_options df = Inr opts"
  shows "\<exists>cats. opts = ''All'' # cats \<and> Text ` set cats = set cat"
proof -
  have "\<forall>x\<in>set (unique cat). \<exists>t. x = Text t" using assms(2) set_unique by metis
  then obtain ss where ss: "those (map text_of (unique cat)) = Some ss" "map Text ss = unique cat"
    using those_text by blast
  have st: "Text ` set ss = set cat" using ss(2) set_unique by (metis set_map)
  let ?n = "''Category'' \<in> set (numeric_columns df)"
  have "opts = ''All'' # py_order ?n ss"
    using assms(1,3) ss(1)
    by (auto simp: category_options_def sorted_py_def split: if_splits)
  then show ?thesis using st by (simp add: set_py_order)
qed

text \<open>
  The selector is not built for the sample file with numbers and an empty field in the
  Category column: \<open>sorted\<close> compares the numbers with the text \<open>Uncategorized\<close>.
\<close>

lemma numbered_category_options:
  "load_data strptime_padded (Some numbered_csv) = ([], Some numbered_df) \<and>
   category_options numbered_df = Inl TypeError"
  by code_simp

text \<open>
  Claim C3, as the code has it. The selector value \<open>All\<close> stands for no filter
  (line 186). For a loaded table and every selected value other than \<open>All\<close>, the
  view holds exactly the rows whose Category is that value, in the order of the table;
  for \<open>All\<close> the view is the whole table. Whenever the selector is built (line 165
  raises when \<open>sorted\<close> meets values it cannot compare), its options after \<open>All\<close>
  are the Category values of the table, and the union of the views over them is the
  set of rows of the table.
\<close>

theorem filter_category_views:
  assumes "load_data strptime file = (msgs, Some df)"
  shows "(\<forall>c. c \<noteq> ''All'' \<longrightarrow>
            (\<exists>v. filter_category c df = Inr v \<and> columns v = columns df \<and>
                 rows v = filter (\<lambda>r. column_cell df r ''Category'' = Text c) (rows df))) \<and>
         filter_category ''All'' df = Inr df \<and>
         (\<forall>opts. category_options df = Inr opts \<longrightarrow>
            (\<exists>cats. opts = ''All'' # cats \<and>
               (\<forall>r\<in>set (rows df). \<exists>c\<in>set cats. column_cell df r ''Category'' = Text c) \<and>
               (\<forall>c\<in>set cats. \<exists>r\<in>set (rows df). column_cell df r ''Category'' = Text c) \<and>
               (\<Union>c\<in>set cats. {r. \<exists>v. filter_category c df = Inr v \<and> r \<in> set (rows v)})
                 = set (rows df)))"
proof -
  have cin: "''Category'' \<in> set (columns df)"
    using assms load_data_columns by blast
  obtain cat where cat: "get_column df ''Category'' = Inr cat" "\<forall>x\<in>set cat. \<exists>t. x = Text t"
    using load_data_category_text [OF assms] by blast
  have cat_eq: "cat = map (\<lambda>r. column_cell df r ''Category'') (rows df)"
    using cat(1) get_column_eq by blast
  have view: "\<exists>v. filter_category c df = Inr v \<and> columns v = columns df \<and>
                 rows v = filter (\<lambda>r. column_cell df r ''Category'' = Text c) (rows df)"
    if "c \<noteq> ''All''" for c
    using filter_category_rows [OF cin that] .
  have all: "filter_category ''All'' df = Inr df"
    by (simp add: filter_category_def)
  have sub: "r \<in> set (rows df)" if "filter_category c df = Inr v" "r \<in> set (rows v)" for c v r
  proof (cases "c = ''All''")
    case True
    then show ?thesis using that all by simp
  next
    case False
    then show ?thesis using view [OF False] that by auto
  qed
  have built: "\<exists>cats. opts = ''All'' # cats \<and>
               (\<forall>r\<in>set (rows df). \<exists>c\<in>set cats. column_cell df r ''Category'' = Text c) \<and>
               (\<forall>c\<in>set cats. \<exists>r\<in>set (rows df). column_cell df r ''Category'' = Text c) \<and>
               (\<Union>c\<in>set cats. {r. \<exists>v. filter_category c df = Inr v \<and> r \<in> set (rows v)})
                 = set (rows df)"
    if opts: "category_options df = Inr opts" for opts
  proof -
    obtain cats where cats: "opts = ''All'' # cats" "Text ` set cats = set cat"
      using category_options_spec [OF cat opts] by blast
    have cover: "\<exists>c\<in>set cats. column_cell df r ''Category'' = Text c"
      if rin: "r \<in> set (rows df)" for r
    proof -
      have "column_cell df r ''Category'' \<in> set cat" using rin cat_eq by simp
      then show ?thesis using cats(2) by auto
    qed
    have used: "\<exists>r\<in>set (rows df). column_cell df r ''Category'' = Text c"
      if cin': "c \<in> set cats" for c
    proof -
      have "Text c \<in> set cat" using cin' cats(2) by auto
      then show ?thesis using cat_eq by auto
    qed
    have sup: "\<exists>c\<in>set cats. \<exists>v. filter_category c df = Inr v \<and> r \<in> set (rows v)"
      if r: "r \<in> set (rows df)" for r
    proof -
      obtain c where c: "c \<in> set cats" "column_cell df r ''Category'' = Text c"
        using cover [OF r] by blast
      show ?thesis
      proof (cases "c = ''All''")
        case True
        then show ?thesis using c(1) all r by blast
      next
        case False
        then obtain v where v: "filter_category c df = Inr v"
          "rows v = filter (\<lambda>r. column_cell df r ''Category'' = Text c) (rows df)"
          using view by blast
        have "r \<in> set (rows v)" using v(2) c(2) r by simp
        then show ?thesis using c(1) v(1) by blast
      qed
    qed
    have union: "(\<Union>c\<in>set cats. {r. \<exists>v. filter_category c df = Inr v \<and> r \<in> set (rows v)})
                = set (rows df)"
    proof (intro set_eqI iffI)
      fix r
      assume "r \<in> (\<Union>c\<in>set cats. {r. \<exists>v. filter_category c df = Inr v \<and> r \<in> set (rows v)})"
      then obtain c v where "filter_category c df = Inr v" "r \<in> set (rows v)"
        by auto
      then show "r \<in> set (rows df)" by (rule sub)
    next
      fix r
      assume "r \<in> set (rows df)"
      from sup [OF this]
      show "r \<in> (\<Union>c\<in>set cats. {r. \<exists>v. filter_category c df = Inr v \<and> r \<in> set (rows v)})"
        by auto
    qed
    have c1: "\<forall>r\<in>set (rows df). \<exists>c\<in>set cats. column_cell df r ''Category'' = Text c"
      using cover by (intro ballI)
    have c2: "\<forall>c\<in>set cats. \<exists>r\<in>set (rows df). column_cell df r ''Category'' = Text c"
      using used by (intro ballI)
    show ?thesis by (intro exI [of _ cats] conjI cats(1) c1 c2 union)
  qed
  show ?thesis
  proof (intro conjI allI impI)
    fix c :: string
    assume "c \<noteq> ''All''"
    then show "\<exists>v. filter_category c df = Inr v \<and> columns v = columns df \<and>
                 rows v = filter (\<lambda>r. column_cell df r ''Category'' = Text c) (rows df)"
      by (rule view)
  next
    show "filter_category ''All'' df = Inr df" by (rule all)
  next
    fix opts
    assume "category_options df = Inr opts"
    then show "\<exists>cats. opts = ''All'' # cats \<and>
               (\<forall>r\<in>set (rows df). \<exists>c\<in>set cats. column_cell df r ''Category'' = Text c) \<and>
               (\<forall>c\<in>set cats. \<exists>r\<in>set (rows df). column_cell df r ''Category'' = Text c) \<and>
               (\<Union>c\<in>set cats. {r. \<exists>v. filter_category c df = Inr v \<and> r \<in> set (rows v)})
                 = set (rows df)"
      by (rule built)
  qed
qed

theorem filter_category_views_witness:
  "load_data strptime_padded (Some sample_csv) = ([], Some sample_df) \<and>
   category_options sample_df = Inr [''All'', ''Access'', ''All'', ''Uncategorized''] \<and>
   filter_category ''Access'' sample_df =
     Inr (sample_df\<lparr>rows := [rows sample_df ! 0, rows sample_df ! 3]\<rparr>) \<and>
   filter_category ''All'' sample_df = Inr sample_df \<and>
   (\<Union>c\<in>set [''Access'', ''All'', ''Uncategorized''].
       {r. \<exists>v. filter_category c sample_df = Inr v \<and> r \<in> set (rows v)}) = set (rows sample_df)"
proof -
  have h: "load_data strptime_padded (Some sample_csv) = ([], Some sample_df)"
    by code_simp
  have o: "category_options sample_df = Inr [''All'', ''Access'', ''All'', ''Uncategorized'']"
    by code_simp
  have a: "filter_category ''Access'' sample_df =
     Inr (sample_df\<lparr>rows := [rows sample_df ! 0, rows sample_df ! 3]\<rparr>)"
    by code_simp
  have "\<exists>cats. [''All'', ''Access'', ''All'', ''Uncategorized''] = ''All'' # cats \<and>
      (\<forall>r\<in>set (rows sample_df). \<exists>c\<in>set cats. column_cell sample_df r ''Category'' = Text c) \<and>
      (\<forall>c\<in>set cats. \<exists>r\<in>set (rows sample_df). column_cell sample_df r ''Category'' = Text c) \<and>
      (\<Union>c\<in>set cats. {r. \<exists>v. filter_category c sample_df = Inr v \<and> r \<in> set (rows v)})
        = set (rows sample_df)"
    using filter_category_views [OF h, THEN conjunct2, THEN conjunct2, THEN spec, THEN mp, OF o] .
  then obtain cats where "[''All'', ''Access'', ''All'', ''Uncategorized''] = ''All'' # cats"
     "(\<Union>c\<in>set cats. {r. \<exists>v. filter_category c sample_df = Inr v \<and> r \<in> set (rows v)})
        = set (rows sample_df)"
    by blast
  then have u: "(\<Union>c\<in>set [''Access'', ''All'', ''Uncategorized''].
       {r. \<exists>v. filter_category c sample_df = Inr v \<and> r \<in> set (rows v)}) = set (rows sample_df)"
    by simp
  have l: "filter_category ''All'' sample_df = Inr sample_df"
    using conjunct1 [OF conjunct2 [OF filter_category_views [OF h]]] .
  show ?thesis by (intro conjI h o a l u)
qed

text \<open>
  Claim C3 as stated fails for a table with a Category named \<open>All\<close>: the sample table
  has one, the selector offers it, and the view for it is the whole table, which holds
  a row of Category \<open>Access\<close>.
\<close>

theorem category_all_counterexample:
  "load_data strptime_padded (Some sample_csv) = ([], Some sample_df) \<and>
   category_options sample_df = Inr [''All'', ''Access'', ''All'', ''Uncategorized''] \<and>
   column_cell sample_df (rows sample_df ! 2) ''Category'' = Text ''All'' \<and>
   filter_category ''All'' sample_df = Inr sample_df \<and>
   rows sample_df ! 0 \<in> set (rows sample_df) \<and>
   column_cell sample_df (rows sample_df ! 0) ''Category'' = Text ''Access''"
  by code_simp

text \<open>
  Claim C9. For a loaded table the view Flagged for Review holds the rows with
  Review\_Flag \<open>YES\<close> and the view Auto-Assigned the rows with Review\_Flag \<open>NO\<close>; both
  are subsets of the table and they are disjoint. A row whose flag is neither value is
  in neither view, and with such a row the two views together are not the table.
\<close>

theorem review_views_disjoint:
  assumes "load_data strptime file = (msgs, Some df)"
  shows "\<exists>flagged assigned.
           filter_review ''Flagged for Review'' df = Inr flagged \<and>
           filter_review ''Auto-Assigned'' df = Inr assigned \<and>
           rows flagged = filter (\<lambda>r. column_cell df r ''Review_Flag'' = Text ''YES'') (rows df) \<and>
           rows assigned = filter (\<lambda>r. column_cell df r ''Review_Flag'' = Text ''NO'') (rows df) \<and>
           set (rows flagged) \<subseteq> set (rows df) \<and>
           set (rows assigned) \<subseteq> set (rows df) \<and>
           set (rows flagged) \<inter> set (rows assigned) = {} \<and>
           (\<forall>r\<in>set (rows df).
              column_cell df r ''Review_Flag'' \<noteq> Text ''YES'' \<and>
              column_cell df r ''Review_Flag'' \<noteq> Text ''NO'' \<longrightarrow>
              r \<notin> set (rows flagged) \<and> r \<notin> set (rows assigned) \<and>
              set (rows flagged) \<union> set (rows assigned) \<noteq> set (rows df))"
proof -
  have fin: "''Review_Flag'' \<in> set (columns df)"
    using assms load_data_columns by blast
  obtain flagged where f: "filter_review ''Flagged for Review'' df = Inr flagged"
    "rows flagged = filter (\<lambda>r. column_cell df r ''Review_Flag'' = Text ''YES'') (rows df)"
    using filter_review_rows [OF fin, of "''Flagged for Review''"] by auto
  obtain assigned where a: "filter_review ''Auto-Assigned'' df = Inr assigned"
    "rows assigned = filter (\<lambda>r. column_cell df r ''Review_Flag'' = Text ''NO'') (rows df)"
    using filter_review_rows [OF fin, of "''Auto-Assigned''"] by auto
  have disj: "set (rows flagged) \<inter> set (rows assigned) = {}"
    unfolding f(2) a(2) by auto
  have sub1: "set (rows flagged) \<subseteq> set (rows df)"
    and sub2: "set (rows assigned) \<subseteq> set (rows df)"
    unfolding f(2) a(2) by auto
  have other: "r \<notin> set (rows flagged) \<and> r \<notin> set (rows assigned) \<and>
      set (rows flagged) \<union> set (rows assigned) \<noteq> set (rows df)"
    if r: "r \<in> set (rows df)"
      and n: "column_cell df r ''Review_Flag'' \<noteq> Text ''YES'' \<and>
              column_cell df r ''Review_Flag'' \<noteq> Text ''NO''" for r
  proof -
    have "r \<notin> set (rows flagged)" "r \<notin> set (rows assigned)"
      unfolding f(2) a(2) using n by simp_all
    then show ?thesis using r by blast
  qed
  have others: "\<forall>r\<in>set (rows df).
              column_cell df r ''Review_Flag'' \<noteq> Text ''YES'' \<and>
              column_cell df r ''Review_Flag'' \<noteq> Text ''NO'' \<longrightarrow>
              r \<notin> set (rows flagged) \<and> r \<notin> set (rows assigned) \<and>
              set (rows flagged) \<union> set (rows assigned) \<noteq> set (rows df)"
    using other by (intro ballI impI)
  show ?thesis
    by (intro exI [of _ flagged] exI [of _ assigned] conjI f a disj sub1 sub2 others)
qed

theorem review_views_disjoint_witness:
  "load_data strptime_padded (Some sample_csv) = ([], Some sample_df) \<and>
   filter_review ''Flagged for Review'' sample_df = Inr (sample_df\<lparr>rows := [rows sample_df ! 0]\<rparr>) \<and>
   filter_review ''Auto-Assigned'' sample_df =
     Inr (sample_df\<lparr>rows := [rows sample_df ! 1, rows sample_df ! 2]\<rparr>) \<and>
   column_cell sample_df (rows sample_df ! 3) ''Review_Flag'' = Text ''MAYBE'' \<and>
   set [rows sample_df ! 0] \<inter> set [rows sample_df ! 1, rows sample_df ! 2] = {} \<and>
   rows sample_df ! 3 \<notin> set [rows sample_df ! 0] \<and>
   rows sample_df ! 3 \<notin> set [rows sample_df ! 1, rows sample_df ! 2] \<and>
   set [rows sample_df ! 0] \<union> set [rows sample_df ! 1, rows sample_df ! 2] \<noteq> set (rows sample_df)"
proof -
  have h: "load_data strptime_padded (Some sample_csv) = ([], Some sample_df)"
    by code_simp
  have f: "filter_review ''Flagged for Review'' sample_df = Inr (sample_df\<lparr>rows := [rows sample_df ! 0]\<rparr>)"
    by code_simp
  have a: "filter_review ''Auto-Assigned'' sample_df =
     Inr (sample_df\<lparr>rows := [rows sample_df ! 1, rows sample_df ! 2]\<rparr>)"
    by code_simp
  have m: "column_cell sample_df (rows sample_df ! 3) ''Review_Flag'' = Text ''MAYBE''"
    by code_simp
  have r: "rows sample_df ! 3 \<in> set (rows sample_df)"
    by code_simp
  obtain flagged assigned where v:
    "filter_review ''Flagged for Review'' sample_df = Inr flagged"
    "filter_review ''Auto-Assigned'' sample_df = Inr assigned"
    "set (rows flagged) \<inter> set (rows assigned) = {}"
    "\<forall>r\<in>set (rows sample_df).
        column_cell sample_df r ''Review_Flag'' \<noteq> Text ''YES'' \<and>
        column_cell sample_df r ''Review_Flag'' \<noteq> Text ''NO'' \<longrightarrow>
        r \<notin> set (rows flagged) \<and> r \<notin> set (rows assigned) \<and>
        set (rows flagged) \<union> set (rows assigned) \<noteq> set (rows sample_df)"
    using review_views_disjoint [OF h] by blast
  have fr: "rows flagged = [rows sample_df ! 0]"
    and ar: "rows assigned = [rows sample_df ! 1, rows sample_df ! 2]"
    using v(1,2) f a by auto
  have ne: "column_cell sample_df (rows sample_df ! 3) ''Review_Flag'' \<noteq> Text ''YES'' \<and>
      column_cell sample_df (rows sample_df ! 3) ''Review_Flag'' \<noteq> Text ''NO''"
    unfolding m by simp
  have i: "rows sample_df ! 3 \<notin> set (rows flagged) \<and> rows sample_df ! 3 \<notin> set (rows assigned) \<and>
        set (rows flagged) \<union> set (rows assigned) \<noteq> set (rows sample_df)"
    using bspec [OF v(4) r] ne by (rule mp)
  show ?thesis
    using i v(3) unfolding fr ar by (intro conjI h f a m) blast+
qed

section \<open>Summary metrics\<close>

lemma pct_delta_eq:
  "pct_delta k total_issues = Inr (if 0 < total_issues then Pct1f (of_nat k / of_nat total_issues * 100) else Lit ''0%'')"
  by (simp add: pct_delta_def truediv_def)

lemma create_summary_metrics_Inr:
  assumes "create_summary_metrics v = Inr (total_issues, flagged_issues, u, res)"
  shows "total_issues = length (rows v)"
    and "flagged_issues = length (filter (\<lambda>r. column_cell v r ''Review_Flag'' = Text ''YES'') (rows v))"
    and "res = length (filter (\<lambda>r. notna (column_cell v r ''Resolved'')) (rows v))"
proof -
  obtain flag where flag: "get_column v ''Review_Flag'' = Inr flag"
    using assms by (cases "get_column v ''Review_Flag''") (auto simp: create_summary_metrics_def Let_def)
  obtain cat where cat: "get_column v ''Category'' = Inr cat"
    using assms flag by (cases "get_column v ''Category''") (auto simp: create_summary_metrics_def Let_def)
  obtain rs where rs: "get_column v ''Resolved'' = Inr rs"
    using assms flag cat by (cases "get_column v ''Resolved''") (auto simp: create_summary_metrics_def Let_def)
  have eq: "(total_issues, flagged_issues, u, res) =
      (length (rows v), length (rows (boolean_index v (eq_mask flag ''YES''))), nunique cat,
       length (rows (boolean_index v (map notna rs))))"
    using assms flag cat rs by (simp add: create_summary_metrics_def Let_def)
  show "total_issues = length (rows v)" using eq by simp
  show "flagged_issues = length (filter (\<lambda>r. column_cell v r ''Review_Flag'' = Text ''YES'') (rows v))"
    using eq boolean_index_eq_mask [OF flag, of "''YES''"] by simp
  have "rs = map (\<lambda>r. column_cell v r ''Resolved'') (rows v)"
    using rs get_column_eq by blast
  then have "map notna rs = map (\<lambda>r. notna (column_cell v r ''Resolved'')) (rows v)"
    by simp
  then have "rows (boolean_index v (map notna rs)) = filter (\<lambda>r. notna (column_cell v r ''Resolved'')) (rows v)"
    by (simp add: boolean_index_def mask_filter)
  then show "res = length (filter (\<lambda>r. notna (column_cell v r ''Resolved'')) (rows v))"
    using eq by simp
qed

lemma create_summary_metrics_ok:
  assumes "''Review_Flag'' \<in> set (columns v)" "''Category'' \<in> set (columns v)"
    "''Resolved'' \<in> set (columns v)"
  shows "\<exists>m. create_summary_metrics v = Inr m"
proof -
  obtain flag cat rs where "get_column v ''Review_Flag'' = Inr flag"
    "get_column v ''Category'' = Inr cat" "get_column v ''Resolved'' = Inr rs"
    using assms get_column_Inr by meson
  then show ?thesis by (simp add: create_summary_metrics_def Let_def)
qed

lemma metrics_row_eq:
  assumes "create_summary_metrics v = Inr (total_issues, flagged_issues, u, res)"
  shows "metrics_row v =
     Inr [Metric ''Total Issues'' total_issues None,
          Metric ''Flagged for Review'' flagged_issues
            (Some (if 0 < total_issues then Pct1f (of_nat flagged_issues / of_nat total_issues * 100) else Lit ''0%'')),
          Metric ''Categories'' u None,
          Metric ''Resolved'' res
            (Some (if 0 < total_issues then Pct1f (of_nat res / of_nat total_issues * 100) else Lit ''0%''))]"
proof -
  have t: "total_issues = length (rows v)" using create_summary_metrics_Inr(1) [OF assms] .
  show ?thesis
    unfolding metrics_row_def assms pct_delta_eq using t by simp
qed

text \<open>
  Claim C4. For every table on which \<open>create_summary_metrics\<close> returns, in particular
  every filtered view, the total is the number of rows and the flagged count is the
  number of rows with Review\_Flag \<open>YES\<close>. The label of the Flagged for Review metric is
  the flagged count divided by the total, times 100, when the total is positive, and
  the text \<open>0%\<close> when the total is zero; computing it raises no error, since the
  division is not evaluated for a total of zero.
\<close>

theorem review_flag_percentage:
  assumes "create_summary_metrics v = Inr (total_issues, flagged_issues, u, res)"
  shows "total_issues = length (rows v) \<and>
         flagged_issues = length (filter (\<lambda>r. column_cell v r ''Review_Flag'' = Text ''YES'') (rows v)) \<and>
         pct_delta flagged_issues total_issues =
           Inr (if 0 < total_issues then Pct1f (of_nat flagged_issues / of_nat total_issues * 100) else Lit ''0%'') \<and>
         pct_delta flagged_issues 0 = Inr (Lit ''0%'') \<and>
         (\<exists>d. metrics_row v =
            Inr [Metric ''Total Issues'' total_issues None,
                 Metric ''Flagged for Review'' flagged_issues
                   (Some (if 0 < total_issues then Pct1f (of_nat flagged_issues / of_nat total_issues * 100)
                          else Lit ''0%'')),
                 Metric ''Categories'' u None,
                 Metric ''Resolved'' res (Some d)])"
proof -
  have a: "total_issues = length (rows v)"
    using create_summary_metrics_Inr(1) [OF assms] .
  have b: "flagged_issues = length (filter (\<lambda>r. column_cell v r ''Review_Flag'' = Text ''YES'') (rows v))"
    using create_summary_metrics_Inr(2) [OF assms] .
  have c: "pct_delta flagged_issues total_issues =
           Inr (if 0 < total_issues then Pct1f (of_nat flagged_issues / of_nat total_issues * 100) else Lit ''0%'')"
    by (rule pct_delta_eq)
  have d: "pct_delta flagged_issues 0 = Inr (Lit ''0%'')"
    by (simp add: pct_delta_def)
  have e: "\<exists>d. metrics_row v =
            Inr [Metric ''Total Issues'' total_issues None,
                 Metric ''Flagged for Review'' flagged_issues
                   (Some (if 0 < total_issues then Pct1f (of_nat flagged_issues / of_nat total_issues * 100)
                          else Lit ''0%'')),
                 Metric ''Categories'' u None,
                 Metric ''Resolved'' res (Some d)]"
    using metrics_row_eq [OF assms] by (intro exI)
  show ?thesis by (intro conjI a b c d e)
qed

theorem review_flag_percentage_witness:
  "apply_filters ''All'' ''All'' sample_df = Inr sample_df \<and>
   create_summary_metrics sample_df = Inr (4, 1, 3, 1) \<and>
   pct_delta 1 4 = Inr (Pct1f 25) \<and>
   apply_filters ''Uncategorized'' ''Flagged for Review'' sample_df = Inr (sample_df\<lparr>rows := []\<rparr>) \<and>
   create_summary_metrics (sample_df\<lparr>rows := []\<rparr>) = Inr (0, 0, 0, 0) \<and>
   pct_delta 0 0 = Inr (Lit ''0%'')"
proof -
  have v1: "apply_filters ''All'' ''All'' sample_df = Inr sample_df" by code_simp
  have m1: "create_summary_metrics sample_df = Inr (4, 1, 3, 1)" by code_simp
  have v2: "apply_filters ''Uncategorized'' ''Flagged for Review'' sample_df = Inr (sample_df\<lparr>rows := []\<rparr>)"
    by code_simp
  have m2: "create_summary_metrics (sample_df\<lparr>rows := []\<rparr>) = Inr (0, 0, 0, 0)" by code_simp
  have "pct_delta 1 4 = Inr (if 0 < (4::nat) then Pct1f (of_nat 1 / of_nat 4 * 100) else Lit ''0%'')"
    using review_flag_percentage [OF m1] by (elim conjE)
  then have p1: "pct_delta 1 4 = Inr (Pct1f 25)" by simp
  have "pct_delta 0 0 = Inr (if 0 < (0::nat) then Pct1f (of_nat 0 / of_nat 0 * 100) else Lit ''0%'')"
    using review_flag_percentage [OF m2] by (elim conjE)
  then have p2: "pct_delta 0 0 = Inr (Lit ''0%'')" by simp
  show ?thesis by (intro conjI v1 m1 p1 v2 m2 p2)
qed

section \<open>The run of main\<close>

lemma well_formed_subset:
  "columns v = columns df \<Longrightarrow> set (rows v) \<subseteq> set (rows df) \<Longrightarrow> well_formed df \<Longrightarrow> well_formed v"
  by (auto simp: well_formed_def list_all_iff)

lemma apply_filters_spec:
  assumes "''Category'' \<in> set (columns df)" "''Review_Flag'' \<in> set (columns df)"
  shows "\<exists>v. apply_filters sc sr df = Inr v \<and> columns v = columns df \<and>
           set (rows v) \<subseteq> set (rows df)"
proof -
  obtain v1 where v1: "filter_category sc df = Inr v1" "columns v1 = columns df"
      "set (rows v1) \<subseteq> set (rows df)"
  proof (cases "sc = ''All''")
    case True
    then show ?thesis using that [of df] by (simp add: filter_category_def)
  next
    case False
    then show ?thesis using filter_category_rows [OF assms(1) False] that by auto
  qed
  have "''Review_Flag'' \<in> set (columns v1)" using assms(2) v1(2) by simp
  then obtain v where v: "filter_review sr v1 = Inr v" "columns v = columns v1"
    "rows v =
       (if sr = ''Flagged for Review''
        then filter (\<lambda>r. column_cell v1 r ''Review_Flag'' = Text ''YES'') (rows v1)
        else if sr = ''Auto-Assigned''
        then filter (\<lambda>r. column_cell v1 r ''Review_Flag'' = Text ''NO'') (rows v1)
        else rows v1)"
    using filter_review_rows [of v1 sr] by blast
  have "set (rows v) \<subseteq> set (rows v1)" unfolding v(3) by auto
  then have "set (rows v) \<subseteq> set (rows df)" using v1(3) by blast
  moreover have "apply_filters sc sr df = Inr v" using v1(1) v(1) by (simp add: apply_filters_def)
  ultimately show ?thesis using v(2) v1(2) by auto
qed

lemma main_load_failure:
  assumes "load_data strptime file = (msgs, None)"
  shows "\<exists>e. load_data_try strptime file = Inl e \<and> msgs = [Error_loading_data e] \<and>
           main px strptime ui file =
             Inr [St_error (Error_loading_data e), St_error Failed_to_load_data]"
proof -
  obtain e where e: "load_data_try strptime file = Inl e"
    using assms by (cases "load_data_try strptime file") (auto simp: load_data_def)
  then have m: "msgs = [Error_loading_data e]" using assms by (simp add: load_data_def)
  have "main px strptime ui file =
      Inr [St_error (Error_loading_data e), St_error Failed_to_load_data]"
    using assms m by (simp add: main_def)
  then show ?thesis using e m by blast
qed

lemma main_Inr:
  assumes "load_data strptime file = (msgs, Some df)"
    and "main px strptime ui file = Inr events"
  shows "\<exists>side v ms cs ts rest.
           sidebar df = Inr side \<and>
           apply_filters (selected_category ui) (selected_review ui) df = Inr v \<and>
           metrics_row v = Inr ms \<and> charts px v = Inr cs \<and> tables v = Inr ts \<and>
           detail_and_export ui v = Inr rest \<and>
           events = map St_error msgs @ side @ ms @ cs @ ts @ rest"
proof -
  obtain es where es: "dashboard px ui df = Inr es" "events = map St_error msgs @ es"
    using assms by (cases "dashboard px ui df") (auto simp: main_def)
  obtain side where side: "sidebar df = Inr side"
    using es(1) by (cases "sidebar df") (auto simp: dashboard_def)
  obtain v where v: "apply_filters (selected_category ui) (selected_review ui) df = Inr v"
    using es(1) side
    by (cases "apply_filters (selected_category ui) (selected_review ui) df")
      (auto simp: dashboard_def)
  obtain ms where ms: "metrics_row v = Inr ms"
    using es(1) side v by (cases "metrics_row v") (auto simp: dashboard_def)
  obtain cs where cs: "charts px v = Inr cs"
    using es(1) side v ms by (cases "charts px v") (auto simp: dashboard_def)
  obtain ts where ts: "tables v = Inr ts"
    using es(1) side v ms cs by (cases "tables v") (auto simp: dashboard_def)
  obtain rest where rest: "detail_and_export ui v = Inr rest"
    using es(1) side v ms cs ts by (cases "detail_and_export ui v") (auto simp: dashboard_def)
  have "es = side @ ms @ cs @ ts @ rest"
    using es(1) side v ms cs ts rest by (simp add: dashboard_def)
  then show ?thesis using es(2) side v ms cs ts rest by blast
qed

text \<open>
  Claim C8 on the code. Loading is not the only failure: a file without a Resolved
  column loads, since \<open>load_data\<close> asks for a date column only when the file has it
  (line 55), and \<open>main\<close> then raises \<open>KeyError\<close> at \<open>df['Resolved']\<close> in
  \<open>create_summary_metrics\<close> (line 142), whatever the figures library does.
\<close>

theorem main_missing_resolved:
  "load_data strptime_padded (Some no_resolved_csv) = ([], Some no_resolved_df) \<and>
   ''Resolved'' \<notin> set (columns no_resolved_df) \<and>
   create_summary_metrics no_resolved_df = Inl (KeyError ''Resolved'') \<and>
   (\<forall>px. main px strptime_padded sample_ui (Some no_resolved_csv) = Inl (KeyError ''Resolved''))"
proof (intro conjI allI)
  show l: "load_data strptime_padded (Some no_resolved_csv) = ([], Some no_resolved_df)"
    by code_simp
  show "''Resolved'' \<notin> set (columns no_resolved_df)"
    by code_simp
  show m: "create_summary_metrics no_resolved_df = Inl (KeyError ''Resolved'')"
    by code_simp
  fix px
  have "\<not> isl (sidebar no_resolved_df)"
    by code_simp
  then have s: "\<exists>side. sidebar no_resolved_df = Inr side"
    by (cases "sidebar no_resolved_df") auto
  have f: "apply_filters (selected_category sample_ui) (selected_review sample_ui) no_resolved_df
      = Inr no_resolved_df"
    by code_simp
  have "metrics_row no_resolved_df = Inl (KeyError ''Resolved'')"
    using m by (simp add: metrics_row_def)
  then have "dashboard px sample_ui no_resolved_df = Inl (KeyError ''Resolved'')"
    using s f by (auto simp: dashboard_def)
  then show "main px strptime_padded sample_ui (Some no_resolved_csv) = Inl (KeyError ''Resolved'')"
    using l by (simp add: main_def)
qed

text \<open>
  Two more runs that raise after a successful load: the file with numbers and an empty
  field in the Category column (\<open>sorted\<close> at line 165), and a view without rows when
  \<open>px.bar\<close> refuses an empty series (line 75).
\<close>

lemma main_numbered_category:
  "main px_ok strptime_padded sample_ui (Some numbered_csv) = Inl TypeError"
  by code_simp

lemma main_empty_view:
  "apply_filters ''Uncategorized'' ''Flagged for Review'' sample_df = Inr (sample_df\<lparr>rows := []\<rparr>) \<and>
   main px_strict strptime_padded
     (sample_ui\<lparr>selected_category := ''Uncategorized'', selected_review := ''Flagged for Review''\<rparr>)
     (Some sample_csv) = Inl ValueError"
  by code_simp

section \<open>Export and reload\<close>

lemma exported_append: "exported (xs @ ys) = exported xs @ exported ys"
  by (induction xs) (simp_all add: exported_def map_filter_simps split: option.splits)

lemma exported_errors: "exported (map St_error msgs) = []"
  by (induction msgs) (simp_all add: exported_def map_filter_simps)

lemma exported_sidebar: "sidebar df = Inr side \<Longrightarrow> exported side = []"
  by (auto simp: sidebar_def date_range_input_def exported_def map_filter_simps
      split: sum.splits if_splits list.splits)

lemma exported_metrics: "metrics_row v = Inr ms \<Longrightarrow> exported ms = []"
  by (auto simp: metrics_row_def exported_def map_filter_simps split: sum.splits prod.splits)

lemma exported_charts: "charts px v = Inr cs \<Longrightarrow> exported cs = []"
  by (auto simp: charts_def exported_def map_filter_simps split: sum.splits option.splits)

lemma exported_tables: "tables v = Inr ts \<Longrightarrow> exported ts = []"
  by (auto simp: tables_def exported_def map_filter_simps split: sum.splits option.splits)

lemma exported_detail:
  "detail_and_export ui v = Inr rest \<Longrightarrow>
   exported rest = (if download_filtered_data ui then [to_csv v] else [])"
  by (auto simp: detail_and_export_def exported_def map_filter_simps split: sum.splits if_splits)

lemma main_exported:
  assumes "load_data strptime file = (msgs, Some df)"
    and "main px strptime ui file = Inr events"
  shows "\<exists>v. apply_filters (selected_category ui) (selected_review ui) df = Inr v \<and>
           exported events = (if download_filtered_data ui then [to_csv v] else [])"
proof -
  obtain side v ms cs ts rest where p:
    "sidebar df = Inr side"
    "apply_filters (selected_category ui) (selected_review ui) df = Inr v"
    "metrics_row v = Inr ms" "charts px v = Inr cs" "tables v = Inr ts"
    "detail_and_export ui v = Inr rest"
    "events = map St_error msgs @ side @ ms @ cs @ ts @ rest"
    using main_Inr [OF assms] by blast
  have "exported events = exported rest"
    unfolding p(7) exported_append exported_errors exported_sidebar [OF p(1)]
      exported_metrics [OF p(3)] exported_charts [OF p(4)] exported_tables [OF p(5)]
    by simp
  then show ?thesis using p(2) exported_detail [OF p(6)] by auto
qed

lemma to_csv_records:
  "\<exists>recs. to_csv v = columns v # recs \<and> length recs = length (rows v) \<and>
     map length recs = map length (rows v)"
  by (auto simp: to_csv_def)

lemma read_csv_to_csv:
  assumes "well_formed v" "columns v \<noteq> []"
  shows "\<exists>raw. read_csv (Some (to_csv v)) = Inr raw \<and> columns raw = columns v \<and>
           length (rows raw) = length (rows v)"
proof -
  obtain recs where recs: "to_csv v = columns v # recs" "length recs = length (rows v)"
      "map length recs = map length (rows v)"
    using to_csv_records by blast
  have len: "length r = length (columns v)" if rin: "r \<in> set recs" for r
  proof -
    have "length r \<in> set (map length recs)" using rin by simp
    then have "length r \<in> set (map length (rows v))" using recs(3) by simp
    then show ?thesis using assms(1) by (auto simp: well_formed_def list_all_iff)
  qed
  have ne: "filter (\<lambda>l. l \<noteq> []) recs = recs"
    using len assms(2) by (fastforce simp: filter_id_conv)
  define w where "w = (case recs of [] \<Rightarrow> length (columns v)
                                 | first # later \<Rightarrow> max (length (columns v)) (length first))"
  have w: "w = length (columns v)"
    using len by (cases recs) (auto simp: w_def)
  have nl: "\<not> list_ex (\<lambda>r. w < length r) recs"
    using len w by (auto simp: list_ex_iff)
  have "\<exists>raw. read_csv (Some (to_csv v)) = Inr raw \<and> columns raw = columns v \<and>
      length (rows raw) = length recs"
    using assms(2) ne nl by (simp add: read_csv_def recs(1) Let_def w_def)
  then show ?thesis using recs(2) by simp
qed

text \<open>
  Claim C5. When a run of \<open>main\<close> on a loaded table ends, the CSV texts it offers for
  download are the one text of the filtered view when the download button was pressed
  and none otherwise (lines 281 to 288), and that text loads again: \<open>load_data\<close> on
  it returns a table, shows no error, and the table has the columns of the view and as
  many rows as the view.
\<close>

theorem export_reload_row_count:
  assumes "load_data strptime file = (msgs, Some df)"
    and "main px strptime ui file = Inr events"
  shows "\<exists>v. apply_filters (selected_category ui) (selected_review ui) df = Inr v \<and>
           exported events = (if download_filtered_data ui then [to_csv v] else []) \<and>
           (\<exists>df'. load_data strptime (Some (to_csv v)) = ([], Some df') \<and>
              columns df' = columns v \<and> length (rows df') = length (rows v))"
proof -
  obtain v where v: "apply_filters (selected_category ui) (selected_review ui) df = Inr v"
      and ex: "exported events = (if download_filtered_data ui then [to_csv v] else [])"
    using main_exported [OF assms] by blast
  have cols: "''Category'' \<in> set (columns df)" "''Review_Flag'' \<in> set (columns df)"
    and wf: "well_formed df"
    using load_data_columns [OF assms(1)] by auto
  have vc: "columns v = columns df" "set (rows v) \<subseteq> set (rows df)"
    using apply_filters_spec [OF cols, of "selected_category ui" "selected_review ui"] v by auto
  have wfv: "well_formed v" using well_formed_subset [OF vc wf] .
  have ne: "columns v \<noteq> []" using cols(1) vc(1) by auto
  obtain raw where raw: "read_csv (Some (to_csv v)) = Inr raw" "columns raw = columns v"
      "length (rows raw) = length (rows v)"
    using read_csv_to_csv [OF wfv ne] by blast
  have rc: "''Category'' \<in> set (columns raw)" "''Review_Flag'' \<in> set (columns raw)"
    using cols vc(1) raw(2) by auto
  obtain df' where "load_data_try strptime (Some (to_csv v)) = Inr df'" "columns df' = columns raw"
      "length (rows df') = length (rows raw)"
    using load_data_try_spec [OF raw(1) rc, of strptime] by blast
  then have "\<exists>df'. load_data strptime (Some (to_csv v)) = ([], Some df') \<and>
              columns df' = columns v \<and> length (rows df') = length (rows v)"
    using raw(2,3) by (simp add: load_data_def)
  then show ?thesis using v ex by blast
qed

theorem export_reload_row_count_witness:
  "load_data strptime_padded (Some sample_csv) = ([], Some sample_df) \<and>
   main px_ok strptime_padded access_ui (Some sample_csv) = Inr access_events \<and>
   apply_filters ''Access'' ''All'' sample_df =
     Inr (sample_df\<lparr>rows := [rows sample_df ! 0, rows sample_df ! 3]\<rparr>) \<and>
   exported access_events =
     [[[''Summary'', ''Category'', ''Review_Flag'', ''Created'', ''Resolved''],
       [''Login fails'', ''Access'', ''YES'', ''2024-01-15 10:30:00'', []],
       [''Crash'', ''Access'', ''MAYBE'', [], []]]] \<and>
   exported access_events = [to_csv (sample_df\<lparr>rows := [rows sample_df ! 0, rows sample_df ! 3]\<rparr>)] \<and>
   (\<exists>df'. load_data strptime_padded
             (Some (to_csv (sample_df\<lparr>rows := [rows sample_df ! 0, rows sample_df ! 3]\<rparr>))) =
             ([], Some df') \<and>
          columns df' = columns (sample_df\<lparr>rows := [rows sample_df ! 0, rows sample_df ! 3]\<rparr>) \<and>
          length (rows df') =
            length (rows (sample_df\<lparr>rows := [rows sample_df ! 0, rows sample_df ! 3]\<rparr>))) \<and>
   length (rows (sample_df\<lparr>rows := [rows sample_df ! 0, rows sample_df ! 3]\<rparr>)) = 2"
proof -
  let ?v = "sample_df\<lparr>rows := [rows sample_df ! 0, rows sample_df ! 3]\<rparr>"
  have h: "load_data strptime_padded (Some sample_csv) = ([], Some sample_df)"
    by code_simp
  have m: "main px_ok strptime_padded access_ui (Some sample_csv) = Inr access_events"
    by code_simp
  have a: "apply_filters ''Access'' ''All'' sample_df = Inr ?v"
    by code_simp
  have a': "apply_filters (selected_category access_ui) (selected_review access_ui) sample_df = Inr ?v"
    using a by (simp add: access_ui_def)
  have d: "download_filtered_data access_ui"
    by (simp add: access_ui_def)
  have x: "exported access_events =
     [[[''Summary'', ''Category'', ''Review_Flag'', ''Created'', ''Resolved''],
       [''Login fails'', ''Access'', ''YES'', ''2024-01-15 10:30:00'', []],
       [''Crash'', ''Access'', ''MAYBE'', [], []]]]"
    by code_simp
  have l: "length (rows ?v) = 2"
    by simp
  obtain v where v: "apply_filters (selected_category access_ui) (selected_review access_ui) sample_df = Inr v"
      "exported access_events = (if download_filtered_data access_ui then [to_csv v] else [])"
      "\<exists>df'. load_data strptime_padded (Some (to_csv v)) = ([], Some df') \<and>
              columns df' = columns v \<and> length (rows df') = length (rows v)"
    using export_reload_row_count [OF h m] by blast
  have veq: "v = ?v" using v(1) a' by simp
  have e: "exported access_events = [to_csv ?v]" using v(2) d veq by simp
  have r: "\<exists>df'. load_data strptime_padded (Some (to_csv ?v)) = ([], Some df') \<and>
              columns df' = columns ?v \<and> length (rows df') = length (rows ?v)"
    using v(3) veq by simp
  show ?thesis by (intro conjI h m a x e r l)
qed

section \<open>Recent Issues\<close>

lemma mset_insert_desc: "mset (insert_desc key x ys) = add_mset x (mset ys)"
  by (induction ys) auto

lemma mset_sort_desc: "mset (sort_desc key xs) = mset xs"
  by (induction xs) (auto simp: sort_desc_def mset_insert_desc)

lemma set_insert_desc: "set (insert_desc key x ys) = insert x (set ys)"
  by (induction ys) auto

lemma length_sort_desc: "length (sort_desc key xs) = length xs"
  using mset_sort_desc [of key xs] by (metis size_mset)

lemma sorted_insert_desc:
  "sorted_wrt (\<lambda>a b. key b \<le> key a) ys \<Longrightarrow> sorted_wrt (\<lambda>a b. key b \<le> key a) (insert_desc key x ys)"
  by (induction ys) (auto simp: set_insert_desc)

lemma sorted_sort_desc: "sorted_wrt (\<lambda>a b. key b \<le> key a) (sort_desc key xs)"
  by (induction xs) (auto simp: sort_desc_def sorted_insert_desc)

lemma sorted_wrt_take_drop:
  assumes "sorted_wrt R xs"
  shows "\<forall>a\<in>set (take n xs). \<forall>b\<in>set (drop n xs). R a b"
proof -
  have "sorted_wrt R (take n xs @ drop n xs)" using assms by simp
  then show ?thesis unfolding sorted_wrt_append by blast
qed

lemma insert_desc_append_le:
  "\<forall>y\<in>set bs. key y \<le> key x \<Longrightarrow> insert_desc key x (as @ bs) = insert_desc key x as @ bs"
proof (induction as)
  case Nil
  then show ?case by (cases bs) auto
next
  case (Cons a as)
  then show ?case by auto
qed

lemma insert_desc_append_gt:
  "\<forall>y\<in>set as. \<not> key y \<le> key x \<Longrightarrow> insert_desc key x (as @ bs) = as @ insert_desc key x bs"
  by (induction as) auto

lemma insert_desc_front:
  "\<forall>y\<in>set bs. key y \<le> key x \<Longrightarrow> insert_desc key x bs = x # bs"
  by (cases bs) auto

lemma sort_desc_none_last:
  fixes key :: "'a \<Rightarrow> 'b::linorder option"
  shows "sort_desc key xs =
     sort_desc key (filter (\<lambda>x. key x \<noteq> None) xs) @ filter (\<lambda>x. key x = None) xs"
proof (induction xs)
  case Nil
  then show ?case by (simp add: sort_desc_def)
next
  case (Cons x xs)
  let ?P = "sort_desc key (filter (\<lambda>x. key x \<noteq> None) xs)"
  let ?A = "filter (\<lambda>x. key x = None) xs"
  have step: "sort_desc key (x # xs) = insert_desc key x (?P @ ?A)"
    using Cons.IH by (simp add: sort_desc_def)
  show ?case
  proof (cases "key x")
    case None
    have "set ?P = set (filter (\<lambda>x. key x \<noteq> None) xs)"
      using mset_sort_desc [of key "filter (\<lambda>x. key x \<noteq> None) xs"] by (metis set_mset_mset)
    then have "\<forall>y\<in>set ?P. \<not> key y \<le> key x" using None by auto
    then have "insert_desc key x (?P @ ?A) = ?P @ insert_desc key x ?A"
      by (rule insert_desc_append_gt)
    moreover have "insert_desc key x ?A = x # ?A"
      using None by (intro insert_desc_front) auto
    ultimately show ?thesis using step None by simp
  next
    case (Some t)
    have "\<forall>y\<in>set ?A. key y \<le> key x" using Some by auto
    then have "insert_desc key x (?P @ ?A) = insert_desc key x ?P @ ?A"
      by (rule insert_desc_append_le)
    then show ?thesis using step Some by (simp add: sort_desc_def)
  qed
qed

lemma diff_nonzero_le: "(10::nat) - n \<noteq> 0 \<Longrightarrow> n \<le> 10"
  by arith

lemma append_Nil_left: "xs = [] \<Longrightarrow> xs @ ys = ys"
  by simp

lemma mset_take_drop_two:
  "mset (take n xs @ take k ys) + mset (drop n xs @ drop k ys) = mset xs + mset ys"
proof -
  have "mset (take n xs @ take k ys) + mset (drop n xs @ drop k ys) =
      mset (take n xs @ drop n xs) + mset (take k ys @ drop k ys)"
    unfolding mset_append by (simp only: add.assoc add.left_commute add.commute)
  then show ?thesis by (simp only: append_take_drop_id)
qed

lemma mset_filter_split: "mset (filter (\<lambda>x. \<not> Q x) xs) + mset (filter Q xs) = mset xs"
  by (induction xs) auto

lemma recent_issues_Some:
  assumes "recent_issues v = Inr (Some t)"
  shows "nlargest 10 ''Created'' v = Inr (v\<lparr>rows := take 10 (sort_desc (created v) (rows v))\<rparr>)"
    and "columns t = [''Summary'', ''Category'', ''Created'', ''Review_Flag'']"
    and "rows t =
      map (\<lambda>r. map (column_cell v r) [''Summary'', ''Category'', ''Created'', ''Review_Flag''])
        (take 10 (sort_desc (created v) (rows v)))"
proof -
  have cin: "''Created'' \<in> set (columns v)"
    using assms by (auto simp: recent_issues_def split: if_splits)
  obtain i where i: "index_of ''Created'' (columns v) = Some i"
    using cin index_of_mem by fastforce
  have key: "(\<lambda>r. stamp_of (cell_at r i)) = created v"
    using i by (simp add: created_def column_cell_def fun_eq_iff)
  show n: "nlargest 10 ''Created'' v = Inr (v\<lparr>rows := take 10 (sort_desc (created v) (rows v))\<rparr>)"
    using i key by (simp add: nlargest_def)
  let ?l = "v\<lparr>rows := take 10 (sort_desc (created v) (rows v))\<rparr>"
  have sel: "select_columns ?l [''Summary'', ''Category'', ''Created'', ''Review_Flag''] = Inr t"
    using assms cin n by (simp add: recent_issues_def split: sum.splits)
  have cc: "column_cell ?l = column_cell v"
    by (simp add: column_cell_def fun_eq_iff)
  have "t = \<lparr>columns = [''Summary'', ''Category'', ''Created'', ''Review_Flag''],
            rows = map (\<lambda>r. map (column_cell ?l r) [''Summary'', ''Category'', ''Created'', ''Review_Flag''])
                    (rows ?l),
            numeric_columns = filter (\<lambda>c. c \<in> set [''Summary'', ''Category'', ''Created'', ''Review_Flag''])
                                (numeric_columns ?l)\<rparr>"
    using sel by (auto simp: select_columns_def split: list.splits)
  then show "columns t = [''Summary'', ''Category'', ''Created'', ''Review_Flag'']"
    and "rows t =
      map (\<lambda>r. map (column_cell v r) [''Summary'', ''Category'', ''Created'', ''Review_Flag''])
        (take 10 (sort_desc (created v) (rows v)))"
    unfolding cc by simp_all
qed

lemma created_projected:
  assumes "columns t = [''Summary'', ''Category'', ''Created'', ''Review_Flag'']"
  shows "created t (map (column_cell v r) [''Summary'', ''Category'', ''Created'', ''Review_Flag''])
    = created v r"
  by (simp add: created_def column_cell_def [of t] assms cell_at_def)


text \<open>
  Claim C6, as the code has it. When the Recent Issues table is shown, which needs a
  Created column, it has 10 rows, or as many as the view when the view has fewer. Its
  first rows have a Created timestamp: they are in descending order of it, and each is
  at least as recent as every row with a timestamp that is left out. The rows after
  them have no timestamp: they are the first such rows of the view, in the order of the
  view, as many as are needed to reach 10 rows once every row with a timestamp is
  shown. So a row without a timestamp is shown only when no row with one is left out.
\<close>

theorem recent_issues_largest:
  assumes "recent_issues v = Inr (Some t)"
  shows "\<exists>dated undated rest.
           nlargest 10 ''Created'' v = Inr (v\<lparr>rows := dated @ undated\<rparr>) \<and>
           rows t =
             map (\<lambda>r. map (column_cell v r) [''Summary'', ''Category'', ''Created'', ''Review_Flag''])
               (dated @ undated) \<and>
           length (dated @ undated) = min 10 (length (rows v)) \<and>
           mset (dated @ undated) + mset rest = mset (rows v) \<and>
           (\<forall>r\<in>set dated. created v r \<noteq> None) \<and>
           sorted_wrt (\<lambda>a b. created v b \<le> created v a) dated \<and>
           (\<forall>r\<in>set dated. \<forall>r'\<in>set rest. created v r' \<noteq> None \<longrightarrow> created v r' \<le> created v r) \<and>
           undated =
             take (10 - length (filter (\<lambda>r. created v r \<noteq> None) (rows v)))
               (filter (\<lambda>r. created v r = None) (rows v)) \<and>
           (undated \<noteq> [] \<longrightarrow> (\<forall>r'\<in>set rest. created v r' = None))"
proof -
  let ?P = "filter (\<lambda>r. created v r \<noteq> None) (rows v)"
  let ?A = "filter (\<lambda>r. created v r = None) (rows v)"
  let ?s = "sort_desc (created v) ?P"
  let ?k = "10 - length ?P"
  let ?d = "take 10 ?s"
  let ?u = "take ?k ?A"
  let ?rest = "drop 10 ?s @ drop ?k ?A"
  have sp: "sort_desc (created v) (rows v) = ?s @ ?A"
    by (rule sort_desc_none_last)
  have tk: "take 10 (?s @ ?A) = ?d @ ?u"
    by (simp only: take_append length_sort_desc)
  have whole: "take 10 (sort_desc (created v) (rows v)) = ?d @ ?u"
    by (simp only: sp tk)
  have n: "nlargest 10 ''Created'' v = Inr (v\<lparr>rows := ?d @ ?u\<rparr>)"
    using recent_issues_Some(1) [OF assms] by (simp only: whole)
  have r: "rows t =
      map (\<lambda>r. map (column_cell v r) [''Summary'', ''Category'', ''Created'', ''Review_Flag''])
        (?d @ ?u)"
    using recent_issues_Some(3) [OF assms] by (simp only: whole)
  have "length (take 10 (sort_desc (created v) (rows v))) = min 10 (length (rows v))"
    by (simp add: length_sort_desc)
  then have len: "length (?d @ ?u) = min 10 (length (rows v))"
    by (simp only: whole)
  have "mset (?d @ ?u) + mset ?rest = mset ?s + mset ?A"
    by (rule mset_take_drop_two)
  also have "\<dots> = mset ?P + mset ?A"
    by (simp only: mset_sort_desc)
  also have "\<dots> = mset (rows v)"
    by (rule mset_filter_split [of "\<lambda>r. created v r = None"])
  finally have ms: "mset (?d @ ?u) + mset ?rest = mset (rows v)" .
  have sets: "set ?s = set ?P"
    using mset_sort_desc [of "created v" ?P] by (metis set_mset_mset)
  have dat: "\<forall>r\<in>set ?d. created v r \<noteq> None"
    using sets set_take_subset [of 10 ?s] by auto
  have srt: "sorted_wrt (\<lambda>a b. created v b \<le> created v a) ?s"
    by (rule sorted_sort_desc)
  have "sorted_wrt (\<lambda>a b. created v b \<le> created v a) (?d @ drop 10 ?s)"
    using srt by simp
  then have st: "sorted_wrt (\<lambda>a b. created v b \<le> created v a) ?d"
    unfolding sorted_wrt_append by simp
  have dom0: "\<forall>r\<in>set ?d. \<forall>r'\<in>set (drop 10 ?s). created v r' \<le> created v r"
    using sorted_wrt_take_drop [OF srt, of 10] by simp
  have und: "\<forall>r'\<in>set (drop ?k ?A). created v r' = None"
    using set_drop_subset [of ?k ?A] by auto
  have dom: "\<forall>r\<in>set ?d. \<forall>r'\<in>set ?rest. created v r' \<noteq> None \<longrightarrow> created v r' \<le> created v r"
  proof (intro ballI impI)
    fix r r'
    assume r: "r \<in> set ?d" and r': "r' \<in> set ?rest" and ne: "created v r' \<noteq> None"
    from r' have "r' \<in> set (drop 10 ?s) \<or> r' \<in> set (drop ?k ?A)"
      by (simp only: set_append Un_iff)
    then have rin: "r' \<in> set (drop 10 ?s)"
    proof
      assume "r' \<in> set (drop 10 ?s)"
      then show ?thesis .
    next
      assume a: "r' \<in> set (drop ?k ?A)"
      have "created v r' = None" using und a by (rule bspec)
      with ne show ?thesis by contradiction
    qed
    have "\<forall>r'\<in>set (drop 10 ?s). created v r' \<le> created v r"
      using dom0 r by (rule bspec)
    then show "created v r' \<le> created v r" using rin by (rule bspec)
  qed
  have fill: "?u \<noteq> [] \<longrightarrow> (\<forall>r'\<in>set ?rest. created v r' = None)"
  proof
    assume ne: "?u \<noteq> []"
    have "?k \<noteq> 0"
    proof
      assume "?k = 0"
      then have "?u = []" by (simp only: take_0)
      with ne show False by contradiction
    qed
    then have "length ?P \<le> 10" by (rule diff_nonzero_le)
    then have "length ?s \<le> 10" by (simp only: length_sort_desc)
    then have "drop 10 ?s = []" by (rule drop_all)
    then have e: "?rest = drop ?k ?A" by (rule append_Nil_left)
    show "\<forall>r'\<in>set ?rest. created v r' = None" unfolding e by (rule und)
  qed
  show ?thesis
    by (intro exI [of _ ?d] exI [of _ ?u] exI [of _ ?rest] conjI n r len ms dat st dom refl fill)
qed

theorem recent_issues_largest_witness:
  "recent_issues sparse_df = Inr (Some sparse_recent) \<and>
   (\<exists>dated undated rest.
      nlargest 10 ''Created'' sparse_df = Inr (sparse_df\<lparr>rows := dated @ undated\<rparr>) \<and>
      rows sparse_recent =
        map (\<lambda>r. map (column_cell sparse_df r) [''Summary'', ''Category'', ''Created'', ''Review_Flag''])
          (dated @ undated) \<and>
      length (dated @ undated) = min 10 (length (rows sparse_df)) \<and>
      mset (dated @ undated) + mset rest = mset (rows sparse_df) \<and>
      (\<forall>r\<in>set dated. created sparse_df r \<noteq> None) \<and>
      sorted_wrt (\<lambda>a b. created sparse_df b \<le> created sparse_df a) dated \<and>
      (\<forall>r\<in>set dated. \<forall>r'\<in>set rest.
         created sparse_df r' \<noteq> None \<longrightarrow> created sparse_df r' \<le> created sparse_df r) \<and>
      undated =
        take (10 - length (filter (\<lambda>r. created sparse_df r \<noteq> None) (rows sparse_df)))
          (filter (\<lambda>r. created sparse_df r = None) (rows sparse_df)) \<and>
      (undated \<noteq> [] \<longrightarrow> (\<forall>r'\<in>set rest. created sparse_df r' = None))) \<and>
   length (rows sparse_df) = 11 \<and>
   length (filter (\<lambda>r. created sparse_df r \<noteq> None) (rows sparse_df)) = 2 \<and>
   take (10 - length (filter (\<lambda>r. created sparse_df r \<noteq> None) (rows sparse_df)))
     (filter (\<lambda>r. created sparse_df r = None) (rows sparse_df)) \<noteq> [] \<and>
   length (rows sparse_recent) = 10 \<and>
   recent_issues busy_df = Inr (Some busy_recent) \<and>
   (\<exists>dated undated rest.
      nlargest 10 ''Created'' busy_df = Inr (busy_df\<lparr>rows := dated @ undated\<rparr>) \<and>
      rows busy_recent =
        map (\<lambda>r. map (column_cell busy_df r) [''Summary'', ''Category'', ''Created'', ''Review_Flag''])
          (dated @ undated) \<and>
      length (dated @ undated) = min 10 (length (rows busy_df)) \<and>
      mset (dated @ undated) + mset rest = mset (rows busy_df) \<and>
      (\<forall>r\<in>set dated. created busy_df r \<noteq> None) \<and>
      sorted_wrt (\<lambda>a b. created busy_df b \<le> created busy_df a) dated \<and>
      (\<forall>r\<in>set dated. \<forall>r'\<in>set rest.
         created busy_df r' \<noteq> None \<longrightarrow> created busy_df r' \<le> created busy_df r) \<and>
      undated =
        take (10 - length (filter (\<lambda>r. created busy_df r \<noteq> None) (rows busy_df)))
          (filter (\<lambda>r. created busy_df r = None) (rows busy_df)) \<and>
      (undated \<noteq> [] \<longrightarrow> (\<forall>r'\<in>set rest. created busy_df r' = None))) \<and>
   length (rows busy_df) = 12 \<and>
   length (filter (\<lambda>r. created busy_df r \<noteq> None) (rows busy_df)) = 11 \<and>
   length (rows busy_recent) = 10"
proof -
  have h: "recent_issues sparse_df = Inr (Some sparse_recent)" by code_simp
  have a: "length (rows sparse_df) = 11" by code_simp
  have b: "length (filter (\<lambda>r. created sparse_df r \<noteq> None) (rows sparse_df)) = 2" by code_simp
  have c: "take (10 - length (filter (\<lambda>r. created sparse_df r \<noteq> None) (rows sparse_df)))
     (filter (\<lambda>r. created sparse_df r = None) (rows sparse_df)) \<noteq> []" by code_simp
  have d: "length (rows sparse_recent) = 10" by code_simp
  have h': "recent_issues busy_df = Inr (Some busy_recent)" by code_simp
  have a': "length (rows busy_df) = 12" by code_simp
  have b': "length (filter (\<lambda>r. created busy_df r \<noteq> None) (rows busy_df)) = 11" by code_simp
  have d': "length (rows busy_recent) = 10" by code_simp
  show ?thesis
    by (intro conjI h a b c d h' a' b' d' recent_issues_largest [OF h] recent_issues_largest [OF h'])
qed

text \<open>
  Claim C6 as stated fails. The view of eleven rows, two of them with a timestamp, has
  fewer than 10 rows that qualify, and its Recent Issues table is neither those two rows
  nor all eleven: it has 10 rows, 8 of them without a timestamp, and leaves out the last
  row of the view, which is like those 8.
\<close>

theorem recent_issues_largest_counterexample:
  "load_data strptime_padded (Some sparse_csv) = ([], Some sparse_df) \<and>
   apply_filters ''All'' ''All'' sparse_df = Inr sparse_df \<and>
   recent_issues sparse_df = Inr (Some sparse_recent) \<and>
   length (rows sparse_df) = 11 \<and>
   length (filter (\<lambda>r. created sparse_df r \<noteq> None) (rows sparse_df)) = 2 \<and>
   length (rows sparse_recent) = 10 \<and>
   length (filter (\<lambda>r. created sparse_recent r = None) (rows sparse_recent)) = 8 \<and>
   map (\<lambda>r. column_cell sparse_df r ''Summary'') (rows sparse_df) =
     [Text ''Login fails'', Text ''Slow page'', Text ''Issue 1'', Text ''Issue 2'', Text ''Issue 3'',
      Text ''Issue 4'', Text ''Issue 5'', Text ''Issue 6'', Text ''Issue 7'', Text ''Issue 8'',
      Text ''Issue 9''] \<and>
   map (\<lambda>r. column_cell sparse_recent r ''Summary'') (rows sparse_recent) =
     [Text ''Login fails'', Text ''Slow page'', Text ''Issue 1'', Text ''Issue 2'', Text ''Issue 3'',
      Text ''Issue 4'', Text ''Issue 5'', Text ''Issue 6'', Text ''Issue 7'', Text ''Issue 8''] \<and>
   created sparse_df (rows sparse_df ! 9) = None \<and>
   created sparse_df (rows sparse_df ! 10) = None"
  by (intro conjI) code_simp+


text \<open>
  Claim C10, as the code has it. The Recent Issues table holds first the rows with a
  Created timestamp, the most recent first and at most 10 of them, and then, when
  fewer than 10 rows have a timestamp, rows without one, in the order of the view, until
  the table has 10 rows. So a row without a timestamp is shown only when the view has
  fewer than 10 rows with one: with 10 or more, every row shown has a timestamp.
\<close>

theorem recent_issues_missing_last:
  assumes "recent_issues v = Inr (Some t)"
  shows "rows t =
           map (\<lambda>r. map (column_cell v r) [''Summary'', ''Category'', ''Created'', ''Review_Flag''])
             (take 10 (sort_desc (created v) (filter (\<lambda>r. created v r \<noteq> None) (rows v)))) @
           map (\<lambda>r. map (column_cell v r) [''Summary'', ''Category'', ''Created'', ''Review_Flag''])
             (take (10 - length (filter (\<lambda>r. created v r \<noteq> None) (rows v)))
                (filter (\<lambda>r. created v r = None) (rows v))) \<and>
         (10 \<le> length (filter (\<lambda>r. created v r \<noteq> None) (rows v)) \<longrightarrow>
            list_all (\<lambda>r. created t r \<noteq> None) (rows t))"
proof -
  let ?proj = "\<lambda>r. map (column_cell v r) [''Summary'', ''Category'', ''Created'', ''Review_Flag'']"
  let ?P = "filter (\<lambda>r. created v r \<noteq> None) (rows v)"
  let ?A = "filter (\<lambda>r. created v r = None) (rows v)"
  have cols: "columns t = [''Summary'', ''Category'', ''Created'', ''Review_Flag'']"
    using recent_issues_Some(2) [OF assms] .
  have r0: "rows t = map ?proj (take 10 (sort_desc (created v) (rows v)))"
    using recent_issues_Some(3) [OF assms] .
  have sp: "sort_desc (created v) (rows v) = sort_desc (created v) ?P @ ?A"
    by (rule sort_desc_none_last)
  have tk: "take 10 (sort_desc (created v) ?P @ ?A) =
      take 10 (sort_desc (created v) ?P) @ take (10 - length ?P) ?A"
    by (simp only: take_append length_sort_desc)
  have eq: "rows t = map ?proj (take 10 (sort_desc (created v) ?P)) @
      map ?proj (take (10 - length ?P) ?A)"
    unfolding r0 by (simp only: sp tk map_append)
  have full: "list_all (\<lambda>r. created t r \<noteq> None) (rows t)" if ten: "10 \<le> length ?P"
  proof -
    have "take (10 - length ?P) ?A = []" using ten by simp
    then have rt: "rows t = map ?proj (take 10 (sort_desc (created v) ?P))"
      using eq by (simp only: list.map append_Nil2)
    have "set (sort_desc (created v) ?P) = set ?P"
      using mset_sort_desc [of "created v" ?P] by (metis set_mset_mset)
    then have pres: "created v r \<noteq> None" if "r \<in> set (take 10 (sort_desc (created v) ?P))" for r
      using that set_take_subset [of 10 "sort_desc (created v) ?P"] by auto
    have "created t x \<noteq> None" if xin: "x \<in> set (rows t)" for x
    proof -
      have "x \<in> ?proj ` set (take 10 (sort_desc (created v) ?P))"
        using xin unfolding rt set_map .
      then obtain r where r: "r \<in> set (take 10 (sort_desc (created v) ?P))" "x = ?proj r"
        by (rule imageE)
      show ?thesis unfolding r(2) created_projected [OF cols] using pres [OF r(1)] .
    qed
    then show ?thesis unfolding list_all_iff by blast
  qed
  show ?thesis using eq full by (intro conjI impI)
qed

theorem recent_issues_missing_last_witness:
  "recent_issues busy_df = Inr (Some busy_recent) \<and>
   created busy_df (rows busy_df ! 11) = None \<and>
   10 \<le> length (filter (\<lambda>r. created busy_df r \<noteq> None) (rows busy_df)) \<and>
   list_all (\<lambda>r. created busy_recent r \<noteq> None) (rows busy_recent)"
proof -
  have h: "recent_issues busy_df = Inr (Some busy_recent)" by code_simp
  have n: "created busy_df (rows busy_df ! 11) = None" by code_simp
  have p: "10 \<le> length (filter (\<lambda>r. created busy_df r \<noteq> None) (rows busy_df))" by code_simp
  have "list_all (\<lambda>r. created busy_recent r \<noteq> None) (rows busy_recent)"
    using recent_issues_missing_last [OF h, THEN conjunct2, THEN mp, OF p] .
  then show ?thesis by (intro conjI h n p)
qed


text \<open>
  Claim C10 as stated fails: the unfiltered view of the sample table has two rows with
  a timestamp, and the Recent Issues table also shows the rows without one.
\<close>

theorem recent_issues_missing_counterexample:
  "load_data strptime_padded (Some sample_csv) = ([], Some sample_df) \<and>
   apply_filters ''All'' ''All'' sample_df = Inr sample_df \<and>
   recent_issues sample_df = Inr (Some sample_recent) \<and>
   created sample_df (rows sample_df ! 1) = None \<and>
   column_cell sample_df (rows sample_df ! 1) ''Created'' = NaN \<and>
   rows sample_recent ! 2 =
     map (column_cell sample_df (rows sample_df ! 1))
       [''Summary'', ''Category'', ''Created'', ''Review_Flag''] \<and>
   column_cell sample_recent (rows sample_recent ! 2) ''Created'' = NaN"
  by code_simp

section \<open>Category Breakdown\<close>

lemma group_values_map:
  "group_values (map f xs) (map g xs) = map f (filter g xs)"
  by (induction xs) (auto simp: group_values_def)

lemma set_group_keys: "set (group_keys numeric cat) = {k. Text k \<in> set cat}"
proof -
  have "set (List.map_filter text_of cat) = {k. Text k \<in> set cat}"
  proof (induction cat)
    case Nil
    then show ?case by (simp add: List.map_filter_simps)
  next
    case (Cons c cat)
    then show ?case by (cases c) (auto simp: List.map_filter_simps)
  qed
  then show ?thesis by (simp add: group_keys_def set_py_order)
qed

lemma distinct_group_keys: "distinct (group_keys numeric cat)"
  by (simp add: group_keys_def distinct_py_order)

lemma length_filter_by_key:
  assumes "finite K" "\<forall>r\<in>set xs. \<exists>k\<in>K. key r = Text k"
  shows "(\<Sum>k\<in>K. length (filter (\<lambda>r. key r = Text k \<and> P r) xs)) = length (filter P xs)"
  using assms(2)
proof (induction xs)
  case Nil
  then show ?case by simp
next
  case (Cons x xs)
  then obtain k0 where k0: "k0 \<in> K" "key x = Text k0" by auto
  have ih: "(\<Sum>k\<in>K. length (filter (\<lambda>r. key r = Text k \<and> P r) xs)) = length (filter P xs)"
    using Cons by simp
  have "(\<Sum>k\<in>K. length (filter (\<lambda>r. key r = Text k \<and> P r) (x # xs))) =
        (\<Sum>k\<in>K. (if k = k0 \<and> P x then 1 else 0) + length (filter (\<lambda>r. key r = Text k \<and> P r) xs))"
    using k0(2) by (intro sum.cong) auto
  also have "\<dots> = (\<Sum>k\<in>K. if k = k0 \<and> P x then 1 else 0) + length (filter P xs)"
    using ih by (simp add: sum.distrib)
  also have "(\<Sum>k\<in>K. if k = k0 \<and> P x then 1 else 0) = (if P x then 1 else (0::nat))"
    using assms(1) k0(1) by (cases "P x") (simp_all add: sum.delta')
  finally show ?case by simp
qed

text \<open>
  What the Total column adds up to: for a table whose Category values are all texts,
  as in every view of a loaded table, the number of rows with a present Summary.
\<close>

lemma category_stats_total:
  assumes "category_stats v = Inr stats"
    and "\<forall>r\<in>set (rows v). \<exists>k. column_cell v r ''Category'' = Text k"
  shows "total_sum stats = length (filter (\<lambda>r. notna (column_cell v r ''Summary'')) (rows v))"
proof -
  obtain cat where cat: "get_column v ''Category'' = Inr cat"
    using assms(1) by (cases "get_column v ''Category''") (auto simp: category_stats_def)
  obtain sm where sm: "get_column v ''Summary'' = Inr sm"
    using assms(1) cat by (cases "get_column v ''Summary''") (auto simp: category_stats_def)
  obtain flag where flag: "get_column v ''Review_Flag'' = Inr flag"
    using assms(1) cat sm by (cases "get_column v ''Review_Flag''") (auto simp: category_stats_def)
  obtain rs where rs: "get_column v ''Resolved'' = Inr rs"
    using assms(1) cat sm flag by (cases "get_column v ''Resolved''") (auto simp: category_stats_def)
  let ?n = "''Category'' \<in> set (numeric_columns v)"
  let ?ct = "\<lambda>r. column_cell v r ''Category''"
  let ?sm = "\<lambda>r. column_cell v r ''Summary''"
  have cat_eq: "cat = map ?ct (rows v)" using cat get_column_eq by blast
  have sm_eq: "sm = map ?sm (rows v)" using sm get_column_eq by blast
  have cnt: "length (filter notna (group_values sm (eq_mask cat k))) =
      length (filter (\<lambda>r. ?ct r = Text k \<and> notna (?sm r)) (rows v))" for k
  proof -
    have "eq_mask cat k = map (\<lambda>r. ?ct r = Text k) (rows v)"
      by (simp add: eq_mask_def cat_eq)
    then have "group_values sm (eq_mask cat k) = map ?sm (filter (\<lambda>r. ?ct r = Text k) (rows v))"
      using group_values_map [of ?sm "rows v" "\<lambda>r. ?ct r = Text k"] sm_eq by simp
    then show ?thesis by (simp add: filter_map comp_def)
  qed
  have "stats = map (\<lambda>k.
                 (k,
                  length (filter notna (group_values sm (eq_mask cat k))),
                  length (filter (\<lambda>c. c = Text ''YES'') (group_values flag (eq_mask cat k))),
                  length (filter notna (group_values rs (eq_mask cat k)))))
               (group_keys ?n cat)"
    using assms(1) cat sm flag rs by (simp add: category_stats_def)
  then have "total_sum stats =
      sum_list (map (\<lambda>k. length (filter notna (group_values sm (eq_mask cat k)))) (group_keys ?n cat))"
    by (simp add: total_sum_def comp_def)
  also have "\<dots> = (\<Sum>k\<in>set (group_keys ?n cat).
      length (filter (\<lambda>r. ?ct r = Text k \<and> notna (?sm r)) (rows v)))"
    using distinct_group_keys [of ?n cat] by (simp add: sum_list_distinct_conv_sum_set cnt)
  also have "\<dots> = length (filter (\<lambda>r. notna (?sm r)) (rows v))"
  proof (rule length_filter_by_key)
    show "finite (set (group_keys ?n cat))" by simp
    show "\<forall>r\<in>set (rows v). \<exists>k\<in>set (group_keys ?n cat). ?ct r = Text k"
    proof
      fix r
      assume r: "r \<in> set (rows v)"
      then obtain k where k: "?ct r = Text k" using assms(2) by blast
      have "?ct r \<in> set cat" using r cat_eq by simp
      then have "k \<in> set (group_keys ?n cat)" using k by (simp add: set_group_keys)
      then show "\<exists>k\<in>set (group_keys ?n cat). ?ct r = Text k" using k by blast
    qed
  qed
  finally show ?thesis .
qed

text \<open>
  Claim C2 on the code. The Total of a group is \<open>'count'\<close> on the Summary column,
  which leaves out the rows with a missing Summary. The sample table has one such row:
  the Totals of its unfiltered view add up to 3, while the view has 4 rows and the
  Total Issues metric shows 4.
\<close>

theorem breakdown_total_failing:
  "load_data strptime_padded (Some sample_csv) = ([], Some sample_df) \<and>
   apply_filters ''All'' ''All'' sample_df = Inr sample_df \<and>
   column_cell sample_df (rows sample_df ! 1) ''Summary'' = NaN \<and>
   category_stats sample_df =
     Inr [(''Access'', 2, 1, 0), (''All'', 1, 0, 0), (''Uncategorized'', 0, 0, 1)] \<and>
   total_sum [(''Access'', 2, 1, 0), (''All'', 1, 0, 0), (''Uncategorized'', 0, 0, 1)] = 3 \<and>
   length (rows sample_df) = 4 \<and>
   create_summary_metrics sample_df = Inr (4, 1, 3, 1)"
  by code_simp

end
